theory Spec2Isabelle
  imports Complex_Main
begin

section \<open>Python values, errors and text\<close>

text \<open>
  The budgeting application is written in Python. Its core is \<^verbatim>\<open>models.py\<close>
  (\<^verbatim>\<open>Transaction\<close>, \<^verbatim>\<open>Account\<close>, \<^verbatim>\<open>Budget\<close>), \<^verbatim>\<open>utils.py\<close> (\<^verbatim>\<open>parse_csv_line\<close>) and
  \<^verbatim>\<open>services/transaction_service.py\<close> (\<^verbatim>\<open>TransactionService\<close>). Every function of the
  embedding below carries the name of the method it translates.

  Conventions of the embedding:
  \<^item> an exception is a value of type \<open>error\<close>, and a method that can raise returns
    \<open>error + 'a\<close> (\<open>Inl\<close> is the raise);
  \<^item> a method that mutates \<^verbatim>\<open>self\<close> takes the object and returns the new one;
  \<^item> the methods of \<^verbatim>\<open>Account\<close> are given on a list of transactions and, with the
    suffix \<open>_ref\<close>, on a store of objects and a list of references to them, which is
    where one object can be listed twice;
  \<^item> amounts are exact real numbers: the rounding of IEEE doubles is not modelled;
  \<^item> a character is one of the 256 code points below U+0100 (the type \<open>char\<close>);
  \<^item> \<^verbatim>\<open>datetime.date.today()\<close> is a parameter \<open>today\<close> of every method that reads it.
\<close>

datatype error =
    ValueError string
  | TypeError string
  | OverflowError string
  | InvalidTransactionError string

fun message :: "error \<Rightarrow> string" where
  "message (ValueError s) = s"
| "message (TypeError s) = s"
| "message (OverflowError s) = s"
| "message (InvalidTransactionError s) = s"

text \<open>Decimal rendering of integers, as \<^verbatim>\<open>str(n)\<close> and f-strings produce it.\<close>

fun str_nat :: "nat \<Rightarrow> string" where
  "str_nat n =
     (if n < 10 then [''0123456789'' ! n]
      else str_nat (n div 10) @ [''0123456789'' ! (n mod 10)])"

declare str_nat.simps [simp del]

definition str_int :: "int \<Rightarrow> string" where
  "str_int i = (if i < 0 then CHR ''-'' # str_nat (nat (- i)) else str_nat (nat i))"

text \<open>
  \<^verbatim>\<open>str.isspace\<close> on one character, which is also the class \<^verbatim>\<open>\s\<close> of a \<^verbatim>\<open>str\<close> pattern:
  below U+0100 these are TAB, LF, VT, FF, CR, the separators U+001C..U+001F, the space,
  NEL (U+0085) and the no-break space (U+00A0).
\<close>

definition is_space :: "char \<Rightarrow> bool" where
  "is_space c =
     (c \<in> set [CHR 0x09, CHR 0x0A, CHR 0x0B, CHR 0x0C, CHR 0x0D, CHR 0x1C, CHR 0x1D,
                CHR 0x1E, CHR 0x1F, CHR '' '', CHR 0x85, CHR 0xA0])"

text \<open>The class \<^verbatim>\<open>\d\<close>: below U+0100 the decimal digits are the ASCII ones.\<close>

definition is_digit :: "char \<Rightarrow> bool" where
  "is_digit c = (c \<in> set ''0123456789'')"

text \<open>\<^verbatim>\<open>s.strip()\<close>: leading and trailing whitespace removed.\<close>

definition strip :: "string \<Rightarrow> string" where
  "strip s = rev (dropWhile is_space (rev (dropWhile is_space s)))"

text \<open>\<^verbatim>\<open>sum(xs)\<close>: starts at 0 and adds from the left.\<close>

definition py_sum :: "real list \<Rightarrow> real" where
  "py_sum xs = foldl (+) 0 xs"

section \<open>Calendar dates: \<^verbatim>\<open>datetime.date\<close>\<close>

record date =
  year :: int
  month :: int
  day :: int

definition is_leap :: "int \<Rightarrow> bool" where
  "is_leap y = (y mod 4 = 0 \<and> (y mod 100 \<noteq> 0 \<or> y mod 400 = 0))"

definition days_in_month :: "int \<Rightarrow> int \<Rightarrow> int" where
  "days_in_month y m =
     (if m = 2 then (if is_leap y then 29 else 28)
      else if m = 4 \<or> m = 6 \<or> m = 9 \<or> m = 11 then 30 else 31)"

text \<open>
  The constructor \<^verbatim>\<open>datetime.date(y, m, d)\<close> (the messages are CPython's). The three
  arguments are first converted to C integers, in this order: \<open>c_int\<close> is the
  \<^verbatim>\<open>OverflowError\<close> of an argument that does not fit. Then the ranges are checked:
  years 1..9999, months 1..12, days of the month; anything else raises \<^verbatim>\<open>ValueError\<close>.
\<close>

definition c_int :: "int \<Rightarrow> error option" where
  "c_int v =
     (if v < - (2 ^ 63) \<or> 2 ^ 63 \<le> v
      then Some (OverflowError ''Python int too large to convert to C long'')
      else if 2 ^ 31 \<le> v then Some (OverflowError ''signed integer is greater than maximum'')
      else if v < - (2 ^ 31) then Some (OverflowError ''signed integer is less than minimum'')
      else None)"

definition mk_date :: "int \<Rightarrow> int \<Rightarrow> int \<Rightarrow> error + date" where
  "mk_date y m d =
     (case c_int y of
        Some e \<Rightarrow> Inl e
      | None \<Rightarrow>
     (case c_int m of
        Some e \<Rightarrow> Inl e
      | None \<Rightarrow>
     (case c_int d of
        Some e \<Rightarrow> Inl e
      | None \<Rightarrow>
          if y < 1 \<or> 9999 < y then Inl (ValueError (''year '' @ str_int y @ '' is out of range''))
          else if m < 1 \<or> 12 < m then Inl (ValueError ''month must be in 1..12'')
          else if d < 1 \<or> days_in_month y m < d
            then Inl (ValueError ''day is out of range for month'')
          else Inr \<lparr>year = y, month = m, day = d\<rparr>)))"

text \<open>Dates compare as the triples (year, month, day) do.\<close>

definition date_le :: "date \<Rightarrow> date \<Rightarrow> bool" where
  "date_le a b =
     (year a < year b \<or>
      (year a = year b \<and> (month a < month b \<or> (month a = month b \<and> day a \<le> day b))))"

definition date_less :: "date \<Rightarrow> date \<Rightarrow> bool" where
  "date_less a b = (date_le a b \<and> a \<noteq> b)"

text \<open>\<^verbatim>\<open>d.isoformat()\<close>: \<^verbatim>\<open>'%04d-%02d-%02d'\<close>.\<close>

definition zero_pad :: "nat \<Rightarrow> string \<Rightarrow> string" where
  "zero_pad w s = replicate (w - length s) (CHR ''0'') @ s"

definition isoformat :: "date \<Rightarrow> string" where
  "isoformat d =
     zero_pad 4 (str_int (year d)) @ ''-'' @ zero_pad 2 (str_int (month d)) @ ''-'' @
     zero_pad 2 (str_int (day d))"

section \<open>Dates with a time: \<^verbatim>\<open>datetime.datetime\<close>\<close>

text \<open>
  \<^verbatim>\<open>datetime.datetime\<close> is a subclass of \<^verbatim>\<open>datetime.date\<close>: an instance has the three
  attributes of a date and a time of day, here \<open>daytime\<close>. \<open>utcoffset\<close> is the offset of
  an aware instance in microseconds (\<open>None\<close> for a naive one). A value that passes
  \<^verbatim>\<open>isinstance(v, datetime.date)\<close> is a \<open>date_value\<close>: an instance of the class itself
  (\<open>Date\<close>) or of the subclass (\<open>DateTime\<close>); \<open>date_part\<close> are its year, month and day.
\<close>

record daytime =
  hour :: int
  minute :: int
  second :: int
  microsecond :: int
  utcoffset :: "int option"

datatype date_value = Date date | DateTime date daytime

fun date_part :: "date_value \<Rightarrow> date" where
  "date_part (Date d) = d"
| "date_part (DateTime d tm) = d"

fun is_plain_date :: "date_value \<Rightarrow> bool" where
  "is_plain_date (Date d) = True"
| "is_plain_date (DateTime d tm) = False"




text \<open>
  The comparisons \<^verbatim>\<open>v >= s\<close> and \<^verbatim>\<open>v <= e\<close> of an attribute \<open>v\<close> with a
  \<^verbatim>\<open>datetime.date\<close>: two dates compare as dates, and a \<^verbatim>\<open>datetime.datetime\<close> does not
  compare with a date, the comparison raises \<^verbatim>\<open>TypeError\<close>.
\<close>

definition cannot_compare :: error where
  "cannot_compare =
     TypeError (''can'' @ [CHR 0x27] @ ''t compare datetime.datetime to datetime.date'')"

fun date_value_ge :: "date_value \<Rightarrow> date \<Rightarrow> error + bool" where
  "date_value_ge (Date d) s = Inr (date_le s d)"
| "date_value_ge (DateTime d tm) s = Inl cannot_compare"

fun date_value_le :: "date_value \<Rightarrow> date \<Rightarrow> error + bool" where
  "date_value_le (Date d) e = Inr (date_le d e)"
| "date_value_le (DateTime d tm) e = Inl cannot_compare"

section \<open>Dynamically typed arguments\<close>

text \<open>
  \<^verbatim>\<open>Transaction.__init__\<close> and \<^verbatim>\<open>Account.update_transaction\<close> test the types of their
  arguments at run time, so an argument is a tagged Python value. \<open>PyDate\<close> holds an
  instance of \<^verbatim>\<open>datetime.date\<close>, of the class itself or of \<^verbatim>\<open>datetime.datetime\<close>;
  \<open>PyObject\<close> stands for a value of any other type.
\<close>

datatype pyval =
    PyNone
  | PyBool bool
  | PyInt int
  | PyFloat real
  | PyStr string
  | PyDate date_value
  | PyObject

text \<open>
  \<^verbatim>\<open>isinstance(v, datetime.date)\<close>: true for a date and for a \<^verbatim>\<open>datetime.datetime\<close>,
  which is an instance of the subclass.
\<close>

fun isinstance_date :: "pyval \<Rightarrow> bool" where
  "isinstance_date (PyDate d) = True"
| "isinstance_date v = False"

text \<open>\<^verbatim>\<open>isinstance(v, (int, float))\<close>; \<^verbatim>\<open>bool\<close> is a subclass of \<^verbatim>\<open>int\<close>.\<close>

fun isinstance_number :: "pyval \<Rightarrow> bool" where
  "isinstance_number (PyBool b) = True"
| "isinstance_number (PyInt i) = True"
| "isinstance_number (PyFloat r) = True"
| "isinstance_number v = False"

text \<open>\<^verbatim>\<open>isinstance(v, str)\<close>\<close>

fun isinstance_str :: "pyval \<Rightarrow> bool" where
  "isinstance_str (PyStr s) = True"
| "isinstance_str v = False"


section \<open>\<^verbatim>\<open>models.py\<close>: Transaction\<close>

text \<open>
  The attribute \<^verbatim>\<open>date\<close> holds whatever passed the check of the constructor: a date or
  a \<^verbatim>\<open>datetime.datetime\<close>. The description is not validated by the source and no method
  inspects it; it is kept as text. \<open>id'\<close> is the attribute \<^verbatim>\<open>id\<close>, \<open>None\<close> until an
  account assigns it.
\<close>

record transaction =
  date :: date_value
  amount :: real
  category :: string
  description :: string
  id' :: "int option"

text \<open>
  The number an accepted amount stands for: \<open>None\<close> when
  \<^verbatim>\<open>isinstance(v, (int, float))\<close> is false.
\<close>

fun number_value :: "pyval \<Rightarrow> real option" where
  "number_value (PyBool b) = Some (of_bool b)"
| "number_value (PyInt i) = Some (of_int i)"
| "number_value (PyFloat r) = Some r"
| "number_value v = None"

text \<open>
  \<^verbatim>\<open>Transaction.__init__(self, date, amount, category, description="", id=None)\<close>: the
  three checks in the order of the source, then the assignments.
\<close>

definition Transaction_init ::
  "pyval \<Rightarrow> pyval \<Rightarrow> pyval \<Rightarrow> string \<Rightarrow> int option \<Rightarrow> error + transaction" where
  "Transaction_init date_arg amount_arg category_arg description_arg id_arg =
     (case date_arg of
        PyDate d \<Rightarrow>
          (case number_value amount_arg of
             Some r \<Rightarrow>
               (case category_arg of
                  PyStr c \<Rightarrow>
                    if c = []
                    then Inl (InvalidTransactionError ''category must be a non-empty string'')
                    else Inr \<lparr>date = d, amount = r, category = c,
                              description = description_arg, id' = id_arg\<rparr>
                | _ \<Rightarrow> Inl (InvalidTransactionError ''category must be a non-empty string''))
           | None \<Rightarrow> Inl (InvalidTransactionError ''amount must be a number''))
      | _ \<Rightarrow> Inl (InvalidTransactionError ''date must be a datetime.date instance''))"



section \<open>\<^verbatim>\<open>models.py\<close>: Account\<close>

text \<open>
  This section describes an account whose entries are objects of their own: the list
  holds the transactions themselves. The source stores references, and
  \<^verbatim>\<open>add_transaction\<close> writes the id into the object it is given; the section
  \<open>Transaction objects and references\<close> below describes the same methods on an explicit
  store of objects, where an object can be listed twice, and shows that the two
  descriptions agree as long as no object is added while the account holds it. That is
  how the service uses the account: \<^verbatim>\<open>create_transaction\<close> builds a new object for
  every call.
\<close>

record account =
  transactions :: "transaction list"
  next_id :: int

definition Account_init :: account where
  "Account_init = \<lparr>transactions = [], next_id = 1\<rparr>"

text \<open>The argument of \<^verbatim>\<open>add_transaction\<close>: a \<^verbatim>\<open>Transaction\<close> instance or some other value.\<close>

datatype pyarg = TransactionObj transaction | OtherObj pyval

definition add_transaction :: "account \<Rightarrow> pyarg \<Rightarrow> error + account" where
  "add_transaction a x =
     (case x of
        OtherObj v \<Rightarrow> Inl (InvalidTransactionError ''Must add a Transaction instance'')
      | TransactionObj t \<Rightarrow>
          Inr \<lparr>transactions = transactions a @ [t\<lparr>id' := Some (next_id a)\<rparr>],
               next_id = next_id a + 1\<rparr>)"

text \<open>
  A list comprehension \<^verbatim>\<open>[t for t in results if test(t)]\<close> whose test can raise: the
  elements are tested in order and the first test that raises ends the comprehension.
\<close>

fun filter_checked :: "('a \<Rightarrow> error + bool) \<Rightarrow> 'a list \<Rightarrow> error + 'a list" where
  "filter_checked test [] = Inr []"
| "filter_checked test (x # xs) =
     (case test x of
        Inl e \<Rightarrow> Inl e
      | Inr b \<Rightarrow>
          (case filter_checked test xs of
             Inl e \<Rightarrow> Inl e
           | Inr ys \<Rightarrow> Inr (if b then x # ys else ys)))"

text \<open>
  \<^verbatim>\<open>list_transactions(start_date=None, end_date=None, category=None)\<close>. A filter is
  applied when its argument is truthy: a date always is, a string is unless it is empty.
  The two bounds are dates (the service builds them with \<^verbatim>\<open>datetime.date\<close>); the
  comparison with the attribute of a transaction raises when the attribute is a
  \<^verbatim>\<open>datetime.datetime\<close>.
\<close>

definition list_transactions ::
  "account \<Rightarrow> date option \<Rightarrow> date option \<Rightarrow> string option \<Rightarrow> error + transaction list" where
  "list_transactions a start_date end_date category_arg =
     (case (case start_date of
              Some s \<Rightarrow> filter_checked (\<lambda>t. date_value_ge (date t) s) (transactions a)
            | None \<Rightarrow> Inr (transactions a)) of
        Inl e \<Rightarrow> Inl e
      | Inr results \<Rightarrow>
     (case (case end_date of
              Some e \<Rightarrow> filter_checked (\<lambda>t. date_value_le (date t) e) results
            | None \<Rightarrow> Inr results) of
        Inl e \<Rightarrow> Inl e
      | Inr results \<Rightarrow>
          Inr (case category_arg of
                 Some c \<Rightarrow> if c \<noteq> [] then filter (\<lambda>t. category t = c) results
                           else results
               | None \<Rightarrow> results)))"

definition get_balance :: "account \<Rightarrow> real" where
  "get_balance a = py_sum (map amount (transactions a))"

definition get_transaction_by_id :: "account \<Rightarrow> int \<Rightarrow> transaction option" where
  "get_transaction_by_id a i = find (\<lambda>t. id' t = Some i) (transactions a)"

text \<open>
  \<^verbatim>\<open>update_transaction\<close> mutates the object that \<^verbatim>\<open>get_transaction_by_id\<close> returned, one
  attribute after the other. \<open>put_transaction\<close> writes the object back into its slot;
  each of the three \<open>check_\<close> functions is one validated \<^verbatim>\<open>if ... is not None\<close> block.
  The function returns the raised error, if any, together with the account as the call
  leaves it.
\<close>

fun put_transaction :: "int \<Rightarrow> transaction \<Rightarrow> transaction list \<Rightarrow> transaction list" where
  "put_transaction i t' [] = []"
| "put_transaction i t' (t # ts) =
     (if id' t = Some i then t' # ts else t # put_transaction i t' ts)"

fun check_date :: "pyval \<Rightarrow> transaction \<Rightarrow> error + transaction" where
  "check_date PyNone t = Inr t"
| "check_date (PyDate d) t = Inr (t\<lparr>date := d\<rparr>)"
| "check_date v t = Inl (InvalidTransactionError ''date must be a datetime.date instance'')"

fun check_amount :: "pyval \<Rightarrow> transaction \<Rightarrow> error + transaction" where
  "check_amount PyNone t = Inr t"
| "check_amount v t =
     (case number_value v of
        Some r \<Rightarrow> Inr (t\<lparr>amount := r\<rparr>)
      | None \<Rightarrow> Inl (InvalidTransactionError ''amount must be a number''))"

fun check_category :: "pyval \<Rightarrow> transaction \<Rightarrow> error + transaction" where
  "check_category PyNone t = Inr t"
| "check_category (PyStr c) t =
     (if c = [] then Inl (InvalidTransactionError ''category must be a non-empty string'')
      else Inr (t\<lparr>category := c\<rparr>))"
| "check_category v t = Inl (InvalidTransactionError ''category must be a non-empty string'')"

definition update_transaction ::
  "account \<Rightarrow> int \<Rightarrow> pyval \<Rightarrow> pyval \<Rightarrow> pyval \<Rightarrow> string option \<Rightarrow> error option \<times> account" where
  "update_transaction a i date_arg amount_arg category_arg description_arg =
     (case get_transaction_by_id a i of
        None \<Rightarrow>
          (Some (InvalidTransactionError (''Transaction with id '' @ str_int i @ '' not found'')), a)
      | Some t0 \<Rightarrow>
          (case check_date date_arg t0 of
             Inl e \<Rightarrow> (Some e, a)
           | Inr t1 \<Rightarrow>
               (case check_amount amount_arg t1 of
                  Inl e \<Rightarrow> (Some e, a\<lparr>transactions := put_transaction i t1 (transactions a)\<rparr>)
                | Inr t2 \<Rightarrow>
                    (case check_category category_arg t2 of
                       Inl e \<Rightarrow>
                         (Some e, a\<lparr>transactions := put_transaction i t2 (transactions a)\<rparr>)
                     | Inr t3 \<Rightarrow>
                         (let t4 = (case description_arg of
                                      None \<Rightarrow> t3
                                    | Some s \<Rightarrow> t3\<lparr>description := s\<rparr>)
                          in (None, a\<lparr>transactions := put_transaction i t4 (transactions a)\<rparr>))))))"

text \<open>
  \<^verbatim>\<open>delete_transaction\<close>: \<^verbatim>\<open>list.remove\<close> takes out the first occurrence of the
  object found.
\<close>

definition delete_transaction :: "account \<Rightarrow> int \<Rightarrow> error + account" where
  "delete_transaction a i =
     (case get_transaction_by_id a i of
        None \<Rightarrow>
          Inl (InvalidTransactionError (''Transaction with id '' @ str_int i @ '' not found''))
      | Some t \<Rightarrow> Inr (a\<lparr>transactions := remove1 t (transactions a)\<rparr>))"

section \<open>\<^verbatim>\<open>models.py\<close>: Budget\<close>

record budget_rec =
  monthly_budgets :: "string \<rightharpoonup> real"

definition Budget_init :: budget_rec where
  "Budget_init = \<lparr>monthly_budgets = Map.empty\<rparr>"

definition set_budget :: "budget_rec \<Rightarrow> string \<Rightarrow> real \<Rightarrow> error + budget_rec" where
  "set_budget b c v =
     (if v < 0 then Inl (ValueError ''Budget amount cannot be negative'')
      else Inr (b\<lparr>monthly_budgets := (monthly_budgets b)(c \<mapsto> v)\<rparr>))"

definition get_budget :: "budget_rec \<Rightarrow> string \<Rightarrow> real" where
  "get_budget b c = (case monthly_budgets b c of None \<Rightarrow> 0 | Some v \<Rightarrow> v)"

definition get_remaining :: "budget_rec \<Rightarrow> string \<Rightarrow> real \<Rightarrow> real" where
  "get_remaining b c spent_arg = get_budget b c - spent_arg"

section \<open>Transaction objects and references\<close>

text \<open>
  In the source a \<^verbatim>\<open>Transaction\<close> is an object and \<^verbatim>\<open>self.transactions\<close> is a list of
  references: \<^verbatim>\<open>add_transaction\<close> writes the id into the object it is given and appends
  the reference, \<^verbatim>\<open>update_transaction\<close> writes into the object found, and
  \<^verbatim>\<open>list.remove\<close> takes out the first reference to it. Here the objects live in a store,
  a function from addresses to their current attributes; \<open>objects\<close> is the store,
  \<open>transactions_ref\<close> is \<^verbatim>\<open>self.transactions\<close> and \<open>next_id_ref\<close> is \<^verbatim>\<open>self.next_id\<close>. The
  store holds every \<^verbatim>\<open>Transaction\<close> object of the program, with the attributes its
  constructor gave it, whether the account refers to it or not. The functions with the
  suffix \<open>_ref\<close> are the methods of \<^verbatim>\<open>Account\<close> on this state.
\<close>

type_synonym ref = nat

record account_ref =
  objects :: "ref \<Rightarrow> transaction"
  transactions_ref :: "ref list"
  next_id_ref :: int

definition Account_init_ref :: "(ref \<Rightarrow> transaction) \<Rightarrow> account_ref" where
  "Account_init_ref store = \<lparr>objects = store, transactions_ref = [], next_id_ref = 1\<rparr>"

text \<open>
  The argument of \<^verbatim>\<open>add_transaction\<close>: a reference to a \<^verbatim>\<open>Transaction\<close> object, or some
  other value.
\<close>

datatype refarg = Ref ref | NoTransaction pyval

definition add_transaction_ref :: "account_ref \<Rightarrow> refarg \<Rightarrow> error + account_ref" where
  "add_transaction_ref a x =
     (case x of
        NoTransaction v \<Rightarrow> Inl (InvalidTransactionError ''Must add a Transaction instance'')
      | Ref r \<Rightarrow>
          Inr \<lparr>objects = (objects a)(r := (objects a r)\<lparr>id' := Some (next_id_ref a)\<rparr>),
               transactions_ref = transactions_ref a @ [r],
               next_id_ref = next_id_ref a + 1\<rparr>)"

definition get_transaction_by_id_ref :: "account_ref \<Rightarrow> int \<Rightarrow> ref option" where
  "get_transaction_by_id_ref a i = find (\<lambda>r. id' (objects a r) = Some i) (transactions_ref a)"

definition update_transaction_ref ::
  "account_ref \<Rightarrow> int \<Rightarrow> pyval \<Rightarrow> pyval \<Rightarrow> pyval \<Rightarrow> string option \<Rightarrow> error option \<times> account_ref"
  where
  "update_transaction_ref a i date_arg amount_arg category_arg description_arg =
     (case get_transaction_by_id_ref a i of
        None \<Rightarrow>
          (Some (InvalidTransactionError (''Transaction with id '' @ str_int i @ '' not found'')), a)
      | Some r \<Rightarrow>
          (case check_date date_arg (objects a r) of
             Inl e \<Rightarrow> (Some e, a)
           | Inr t1 \<Rightarrow>
               (case check_amount amount_arg t1 of
                  Inl e \<Rightarrow> (Some e, a\<lparr>objects := (objects a)(r := t1)\<rparr>)
                | Inr t2 \<Rightarrow>
                    (case check_category category_arg t2 of
                       Inl e \<Rightarrow> (Some e, a\<lparr>objects := (objects a)(r := t2)\<rparr>)
                     | Inr t3 \<Rightarrow>
                         (let t4 = (case description_arg of
                                      None \<Rightarrow> t3
                                    | Some s \<Rightarrow> t3\<lparr>description := s\<rparr>)
                          in (None, a\<lparr>objects := (objects a)(r := t4)\<rparr>))))))"

definition delete_transaction_ref :: "account_ref \<Rightarrow> int \<Rightarrow> error + account_ref" where
  "delete_transaction_ref a i =
     (case get_transaction_by_id_ref a i of
        None \<Rightarrow>
          Inl (InvalidTransactionError (''Transaction with id '' @ str_int i @ '' not found''))
      | Some r \<Rightarrow> Inr (a\<lparr>transactions_ref := remove1 r (transactions_ref a)\<rparr>))"

text \<open>
  What the account shows of the store: the listed objects in order, with the counter.
  \<open>stored_ids\<close> are the ids of the entries of the list, in order.
\<close>

definition account_view :: "account_ref \<Rightarrow> account" where
  "account_view a =
     \<lparr>transactions = map (objects a) (transactions_ref a), next_id = next_id_ref a\<rparr>"

definition stored_ids :: "account_ref \<Rightarrow> int option list" where
  "stored_ids a = map id' (transactions (account_view a))"

section \<open>Histories of an account\<close>

text \<open>
  Sequences of the three mutating operations of an account. \<open>apply_op\<close> is the state
  after one call, whether the call returned or raised; \<open>assigned\<close> is the id the call gave
  out, if it gave one out; \<open>run\<close> and \<open>assigned_ids\<close> follow a whole sequence.
  \<open>fresh_adds\<close> says that no add of the sequence is given an object that the account
  holds at that moment. \<open>ids_ok\<close> says that every listed object has an id between 1 and
  \<open>next_id_ref\<close>, the latter excluded, and that two entries of the list with the same id
  are the same object.
\<close>

datatype account_op =
    Add refarg
  | Update int pyval pyval pyval "string option"
  | Delete int

fun apply_op :: "account_ref \<Rightarrow> account_op \<Rightarrow> account_ref" where
  "apply_op a (Add x) = (case add_transaction_ref a x of Inl e \<Rightarrow> a | Inr a' \<Rightarrow> a')"
| "apply_op a (Update i d v c s) = snd (update_transaction_ref a i d v c s)"
| "apply_op a (Delete i) = (case delete_transaction_ref a i of Inl e \<Rightarrow> a | Inr a' \<Rightarrow> a')"

fun run :: "account_ref \<Rightarrow> account_op list \<Rightarrow> account_ref" where
  "run a [] = a"
| "run a (x # xs) = run (apply_op a x) xs"

fun assigned :: "account_ref \<Rightarrow> account_op \<Rightarrow> int list" where
  "assigned a (Add x) =
     (case add_transaction_ref a x of
        Inl e \<Rightarrow> []
      | Inr a' \<Rightarrow> (case last (stored_ids a') of None \<Rightarrow> [] | Some i \<Rightarrow> [i]))"
| "assigned a (Update i d v c s) = []"
| "assigned a (Delete i) = []"

fun assigned_ids :: "account_ref \<Rightarrow> account_op list \<Rightarrow> int list" where
  "assigned_ids a [] = []"
| "assigned_ids a (x # xs) = assigned a x @ assigned_ids (apply_op a x) xs"

text \<open>The adds that go through: those whose argument is a \<^verbatim>\<open>Transaction\<close>.\<close>

fun is_add :: "account_op \<Rightarrow> bool" where
  "is_add (Add (Ref r)) = True"
| "is_add x = False"

definition adds :: "account_op list \<Rightarrow> nat" where
  "adds xs = length (filter is_add xs)"

fun fresh_add :: "account_ref \<Rightarrow> account_op \<Rightarrow> bool" where
  "fresh_add a (Add (Ref r)) = (r \<notin> set (transactions_ref a))"
| "fresh_add a x = True"

fun fresh_adds :: "account_ref \<Rightarrow> account_op list \<Rightarrow> bool" where
  "fresh_adds a [] = True"
| "fresh_adds a (x # xs) = (fresh_add a x \<and> fresh_adds (apply_op a x) xs)"

definition ids_ok :: "account_ref \<Rightarrow> bool" where
  "ids_ok a =
     (list_all (\<lambda>r. case id' (objects a r) of None \<Rightarrow> False
                     | Some i \<Rightarrow> 1 \<le> i \<and> i < next_id_ref a)
        (transactions_ref a)
      \<and> inj_on (\<lambda>r. id' (objects a r)) (set (transactions_ref a)))"

section \<open>\<^verbatim>\<open>utils.py\<close>: the line parser\<close>

subsection \<open>Regular expressions with backtracking\<close>

text \<open>
  \<^verbatim>\<open>parse_csv_line\<close> is one call of \<^verbatim>\<open>re.match\<close>. The pattern uses literals, greedy
  repetitions of a character class, sequences, alternatives, greedy options and named
  groups. \<open>rmatch r g s\<close> lists every way \<open>r\<close> matches a prefix of \<open>s\<close>, in the order in
  which a backtracking matcher tries them (the longest repetition first, the left
  alternative first, the option taken first), each with the groups captured so far (the
  latest capture first) and the input that is left. \<^verbatim>\<open>re.match\<close> returns the first entry.
\<close>

datatype group = GDate | GAmount | GCategory | GDescription

datatype regex =
    Eps
  | Lit char
  | Rep "char \<Rightarrow> bool" nat "nat option"
  | Seq regex regex
  | Alt regex regex
  | Opt regex
  | Grp group regex

type_synonym groups = "(group \<times> string) list"

fun rmatch :: "regex \<Rightarrow> groups \<Rightarrow> string \<Rightarrow> (groups \<times> string) list" where
  "rmatch Eps g s = [(g, s)]"
| "rmatch (Lit c) g s = (case s of [] \<Rightarrow> [] | x # xs \<Rightarrow> if x = c then [(g, xs)] else [])"
| "rmatch (Rep p lo hi) g s =
     (let n = length (takeWhile p s);
          m = (case hi of None \<Rightarrow> n | Some h \<Rightarrow> min n h)
      in map (\<lambda>k. (g, drop k s)) (rev [lo..<Suc m]))"
| "rmatch (Seq a b) g s = concat (map (\<lambda>(g', s'). rmatch b g' s') (rmatch a g s))"
| "rmatch (Alt a b) g s = rmatch a g s @ rmatch b g s"
| "rmatch (Opt a) g s = rmatch a g s @ [(g, s)]"
| "rmatch (Grp n a) g s =
     map (\<lambda>(g', s'). ((n, take (length s - length s') s) # g', s')) (rmatch a g s)"

fun seqs :: "regex list \<Rightarrow> regex" where
  "seqs [] = Eps"
| "seqs (r # rs) = Seq r (seqs rs)"

text \<open>
  The pattern of \<^verbatim>\<open>parse_csv_line\<close>, piece by piece:
  \<^verbatim>\<open>\s*(?P<date>\d{4}-\d{2}-\d{2}|\d{1,2}/\d{1,2}/\d{4})\s*,\s*\<close>
  \<^verbatim>\<open>(?P<amount>-?\d+(?:\.\d+)?)\s*,\s*\<close>
  \<^verbatim>\<open>(?P<category>[^,]+)\s*\<close>
  \<^verbatim>\<open>(?:,\s*(?P<description>.*))?\<close>
\<close>

definition spaces :: regex where
  "spaces = Rep is_space 0 None"

definition digits :: "nat \<Rightarrow> nat \<Rightarrow> regex" where
  "digits lo hi = Rep is_digit lo (Some hi)"

definition date_pattern :: regex where
  "date_pattern =
     Alt (seqs [digits 4 4, Lit (CHR ''-''), digits 2 2, Lit (CHR ''-''), digits 2 2])
         (seqs [digits 1 2, Lit (CHR ''/''), digits 1 2, Lit (CHR ''/''), digits 4 4])"

definition amount_pattern :: regex where
  "amount_pattern =
     seqs [Opt (Lit (CHR ''-'')), Rep is_digit 1 None,
           Opt (seqs [Lit (CHR ''.''), Rep is_digit 1 None])]"

definition csv_pattern :: regex where
  "csv_pattern =
     seqs [spaces, Grp GDate date_pattern, spaces, Lit (CHR '',''), spaces,
           Grp GAmount amount_pattern, spaces, Lit (CHR '',''), spaces,
           Grp GCategory (Rep (\<lambda>c. c \<noteq> CHR '','') 1 None), spaces,
           Opt (seqs [Lit (CHR '',''), spaces,
                      Grp GDescription (Rep (\<lambda>c. c \<noteq> CHR 0x0A) 0 None)])]"

text \<open>\<^verbatim>\<open>re.match\<close>: the groups of the first match, or \<open>None\<close>.\<close>

definition re_match :: "regex \<Rightarrow> string \<Rightarrow> groups option" where
  "re_match r s = (case rmatch r [] s of [] \<Rightarrow> None | (g, rest) # others \<Rightarrow> Some g)"

subsection \<open>Library conversions\<close>

text \<open>
  \<^verbatim>\<open>int\<close> and \<^verbatim>\<open>float\<close> on the texts the pattern lets through: a run of digits, and an
  optional minus sign, digits and an optional fraction. The value of a decimal numeral is
  taken exactly.
\<close>

definition digit_value :: "char \<Rightarrow> nat" where
  "digit_value c = of_char c - 48"

definition nat_of_digits :: "string \<Rightarrow> nat" where
  "nat_of_digits s = foldl (\<lambda>n c. 10 * n + digit_value c) 0 s"

definition float_of_str :: "string \<Rightarrow> real" where
  "float_of_str s =
     (let negative = (take 1 s = ''-'');
          body = (if negative then drop 1 s else s);
          whole = takeWhile is_digit body;
          fraction = drop 1 (dropWhile is_digit body);
          magnitude = real (nat_of_digits whole)
                      + real (nat_of_digits fraction) / 10 ^ length fraction
      in if negative then - magnitude else magnitude)"

text \<open>
  \<^verbatim>\<open>datetime.datetime.strptime(s, fmt).date()\<close> for the two formats of the source, on a
  text of digits and separators. The function belongs to the Python library, not to the
  repository; the definition follows CPython. The directive \<^verbatim>\<open>%Y\<close> takes four digits, \<^verbatim>\<open>%m\<close> one or
  two digits that make 1..12, \<^verbatim>\<open>%d\<close> one or two digits that make 1..31, and a text
  that does not fit raises the error of the mismatch. The directive at the end of a format
  need not use up the text: in \<^verbatim>\<open>%Y-%m-%d\<close> a day field of two digits that make more
  than 31 and do not start with 0 has its first digit taken as the day and the second
  left over, and the error is the one of the leftover. The date is then built by the
  constructor, which checks the day against the month and the year against 1..9999.
\<close>

datatype date_format = MDY | YMD

fun format_text :: "date_format \<Rightarrow> string" where
  "format_text MDY = ''%m/%d/%Y''"
| "format_text YMD = ''%Y-%m-%d''"

fun split_on :: "char \<Rightarrow> string \<Rightarrow> string list" where
  "split_on c [] = [[]]"
| "split_on c (x # xs) =
     (if x = c then [] # split_on c xs
      else (case split_on c xs of [] \<Rightarrow> [[x]] | f # fs \<Rightarrow> (x # f) # fs))"

definition year_field :: "string \<Rightarrow> bool" where
  "year_field s = (length s = 4 \<and> list_all is_digit s)"

definition small_field :: "nat \<Rightarrow> string \<Rightarrow> bool" where
  "small_field hi s =
     (1 \<le> length s \<and> length s \<le> 2 \<and> list_all is_digit s \<and>
      1 \<le> nat_of_digits s \<and> nat_of_digits s \<le> hi)"

definition strptime :: "string \<Rightarrow> date_format \<Rightarrow> error + date" where
  "strptime s fmt =
     (let mismatch = ValueError (''time data '' @ [CHR 0x27] @ s @ [CHR 0x27] @
                                 '' does not match format '' @
                                 [CHR 0x27] @ format_text fmt @ [CHR 0x27])
      in case (fmt, split_on (case fmt of MDY \<Rightarrow> CHR ''/'' | YMD \<Rightarrow> CHR ''-'') s) of
           (MDY, [m, d, y]) \<Rightarrow>
             if small_field 12 m \<and> small_field 31 d \<and> year_field y
             then mk_date (int (nat_of_digits y)) (int (nat_of_digits m)) (int (nat_of_digits d))
             else Inl mismatch
         | (YMD, [y, m, d]) \<Rightarrow>
             if year_field y \<and> small_field 12 m \<and> small_field 31 d
             then mk_date (int (nat_of_digits y)) (int (nat_of_digits m)) (int (nat_of_digits d))
             else if year_field y \<and> small_field 12 m \<and> length d = 2 \<and> list_all is_digit d \<and>
                     take 1 d \<noteq> ''0''
             then Inl (ValueError (''unconverted data remains: '' @ drop 1 d))
             else Inl mismatch
         | _ \<Rightarrow> Inl mismatch)"

subsection \<open>\<^verbatim>\<open>parse_csv_line\<close>\<close>

text \<open>
  \<^verbatim>\<open>match.group(name)\<close>; \<^verbatim>\<open>match.group('description') or ""\<close> is the same function, since
  the group is \<^verbatim>\<open>None\<close> when the option was not taken.
\<close>

definition group_text :: "groups \<Rightarrow> group \<Rightarrow> string" where
  "group_text g n = (case map_of g n of None \<Rightarrow> [] | Some s \<Rightarrow> s)"

definition parse_csv_line :: "string \<Rightarrow> error + (date \<times> real \<times> string \<times> string)" where
  "parse_csv_line line =
     (case re_match csv_pattern line of
        None \<Rightarrow> Inl (ValueError (''Line does not match expected format: '' @ line))
      | Some g \<Rightarrow>
          (let date_str = group_text g GDate in
           case (if CHR ''/'' \<in> set date_str then strptime date_str MDY
                 else strptime date_str YMD) of
             Inl e \<Rightarrow> Inl e
           | Inr d \<Rightarrow>
               Inr (d, float_of_str (group_text g GAmount), strip (group_text g GCategory),
                    group_text g GDescription)))"

section \<open>\<^verbatim>\<open>services/transaction_service.py\<close>: TransactionService\<close>

record service =
  account :: account
  budget :: "budget_rec option"

definition create_transaction ::
  "service \<Rightarrow> pyval \<Rightarrow> pyval \<Rightarrow> pyval \<Rightarrow> string \<Rightarrow> error + (transaction \<times> service)" where
  "create_transaction svc date_arg amount_arg category_arg description_arg =
     (case Transaction_init date_arg amount_arg category_arg description_arg None of
        Inl e \<Rightarrow> Inl e
      | Inr t \<Rightarrow>
          (case add_transaction (account svc) (TransactionObj t) of
             Inl e \<Rightarrow> Inl e
           | Inr a' \<Rightarrow> Inr (t\<lparr>id' := Some (next_id (account svc))\<rparr>, svc\<lparr>account := a'\<rparr>)))"

text \<open>
  The three monthly methods open with the same lines: the default month, the first day
  of the month, the first day of the next month, and the query
  \<^verbatim>\<open>list_transactions(start_date=start_month, end_date=end_month)\<close>. They are
  \<open>monthly_transactions\<close> here.
\<close>

definition monthly_transactions ::
  "service \<Rightarrow> date \<Rightarrow> int option \<Rightarrow> int option \<Rightarrow> error + transaction list" where
  "monthly_transactions svc today year_arg month_arg =
     (let (y, m) = (case (year_arg, month_arg) of
                      (Some y, Some m) \<Rightarrow> (y, m)
                    | _ \<Rightarrow> (year today, month today))
      in case mk_date y m 1 of
           Inl e \<Rightarrow> Inl e
         | Inr start_month \<Rightarrow>
             (case (if m = 12 then mk_date (y + 1) 1 1 else mk_date y (m + 1) 1) of
                Inl e \<Rightarrow> Inl e
              | Inr end_month \<Rightarrow>
                  list_transactions (account svc) (Some start_month) (Some end_month) None))"

definition get_monthly_spending ::
  "service \<Rightarrow> date \<Rightarrow> int option \<Rightarrow> int option \<Rightarrow> error + real" where
  "get_monthly_spending svc today year_arg month_arg =
     (case monthly_transactions svc today year_arg month_arg of
        Inl e \<Rightarrow> Inl e
      | Inr ts \<Rightarrow> Inr (py_sum (map (\<lambda>t. \<bar>amount t\<bar>) (filter (\<lambda>t. amount t < 0) ts))))"

definition get_monthly_income ::
  "service \<Rightarrow> date \<Rightarrow> int option \<Rightarrow> int option \<Rightarrow> error + real" where
  "get_monthly_income svc today year_arg month_arg =
     (case monthly_transactions svc today year_arg month_arg of
        Inl e \<Rightarrow> Inl e
      | Inr ts \<Rightarrow> Inr (py_sum (map amount (filter (\<lambda>t. 0 < amount t) ts))))"

text \<open>
  A \<^verbatim>\<open>dict\<close> keeps its keys in the order of their first insertion: an association list
  with \<open>dict_set\<close> overwriting in place.
\<close>

fun dict_get :: "('k \<times> 'v) list \<Rightarrow> 'k \<Rightarrow> 'v \<Rightarrow> 'v" where
  "dict_get [] k dflt = dflt"
| "dict_get ((k', v) # kvs) k dflt = (if k' = k then v else dict_get kvs k dflt)"

fun dict_set :: "('k \<times> 'v) list \<Rightarrow> 'k \<Rightarrow> 'v \<Rightarrow> ('k \<times> 'v) list" where
  "dict_set [] k v = [(k, v)]"
| "dict_set ((k', v') # kvs) k v =
     (if k' = k then (k, v) # kvs else (k', v') # dict_set kvs k v)"

fun totals_loop :: "(string \<times> real) list \<Rightarrow> transaction list \<Rightarrow> (string \<times> real) list" where
  "totals_loop category_totals [] = category_totals"
| "totals_loop category_totals (t # ts) =
     totals_loop
       (dict_set category_totals (category t) (dict_get category_totals (category t) 0 + amount t))
       ts"

definition get_category_totals ::
  "service \<Rightarrow> date \<Rightarrow> int option \<Rightarrow> int option \<Rightarrow> error + (string \<times> real) list" where
  "get_category_totals svc today year_arg month_arg =
     (case monthly_transactions svc today year_arg month_arg of
        Inl e \<Rightarrow> Inl e
      | Inr ts \<Rightarrow> Inr (totals_loop [] ts))"

definition get_category_spending ::
  "service \<Rightarrow> date \<Rightarrow> int option \<Rightarrow> int option \<Rightarrow> error + (string \<times> real) list" where
  "get_category_spending svc today year_arg month_arg =
     (case get_category_totals svc today year_arg month_arg of
        Inl e \<Rightarrow> Inl e
      | Inr category_totals \<Rightarrow>
          Inr (map (\<lambda>(k, v). (k, \<bar>v\<bar>)) (filter (\<lambda>(k, v). v < 0) category_totals)))"

text \<open>\<^verbatim>\<open>get_budget_status\<close>: \<open>None\<close> is the missing budget system.\<close>

record budget_status =
  budget_amount :: real
  spent :: real
  remaining :: real

definition get_budget_status ::
  "service \<Rightarrow> date \<Rightarrow> string \<Rightarrow> error + budget_status option" where
  "get_budget_status svc today category_arg =
     (case budget svc of
        None \<Rightarrow> Inr None
      | Some b \<Rightarrow>
          (case get_category_totals svc today None None of
             Inl e \<Rightarrow> Inl e
           | Inr category_totals \<Rightarrow>
               (let spent_now = \<bar>dict_get category_totals category_arg 0\<bar>;
                    amount_now = get_budget b category_arg;
                    remaining_now = amount_now - spent_now
                in Inr (Some \<lparr>budget_amount = amount_now, spent = spent_now,
                              remaining = remaining_now\<rparr>))))"

text \<open>
  \<^verbatim>\<open>str.splitlines\<close>: below U+0100 a line ends at LF, CR, CR LF, VT, FF, U+001C, U+001D,
  U+001E or NEL; the line ends are dropped and a final line end opens no empty line.
\<close>

definition is_linebreak :: "char \<Rightarrow> bool" where
  "is_linebreak c =
     (c \<in> set [CHR 0x0A, CHR 0x0D, CHR 0x0B, CHR 0x0C, CHR 0x1C, CHR 0x1D, CHR 0x1E, CHR 0x85])"

fun splitlines_from :: "string \<Rightarrow> string \<Rightarrow> string list" where
  "splitlines_from cur [] = (if cur = [] then [] else [cur])"
| "splitlines_from cur [c] = (if is_linebreak c then [cur] else [cur @ [c]])"
| "splitlines_from cur (c # d # cs) =
     (if c = CHR 0x0D \<and> d = CHR 0x0A then cur # splitlines_from [] cs
      else if is_linebreak c then cur # splitlines_from [] (d # cs)
      else splitlines_from (cur @ [c]) (d # cs))"

definition splitlines :: "string \<Rightarrow> string list" where
  "splitlines s = splitlines_from [] s"

text \<open>
  One turn of the loop of \<^verbatim>\<open>import_transactions_from_csv\<close>, for the line with index \<open>i\<close>
  of \<^verbatim>\<open>enumerate(lines)\<close>: the \<^verbatim>\<open>try\<close> body, and the \<^verbatim>\<open>except\<close> clause that turns any
  exception into a message.
\<close>

definition import_line :: "service \<Rightarrow> string \<Rightarrow> error + service" where
  "import_line svc line =
     (case parse_csv_line line of
        Inl e \<Rightarrow> Inl e
      | Inr (d, a, c, ds) \<Rightarrow>
          (case create_transaction svc (PyDate (Date d)) (PyFloat a) (PyStr c) ds of
             Inl e \<Rightarrow> Inl e
           | Inr (t, svc') \<Rightarrow> Inr svc'))"

fun import_loop ::
  "service \<Rightarrow> nat \<Rightarrow> string list \<Rightarrow> nat \<Rightarrow> string list \<Rightarrow> (nat \<times> string list) \<times> service" where
  "import_loop svc i [] imported errors = ((imported, errors), svc)"
| "import_loop svc i (line # lines) imported errors =
     (case import_line svc line of
        Inl e \<Rightarrow>
          import_loop svc (i + 1) lines imported
            (errors @ [''Line '' @ str_nat (i + 1) @ '': '' @ message e])
      | Inr svc' \<Rightarrow> import_loop svc' (i + 1) lines (imported + 1) errors)"

definition import_transactions_from_csv ::
  "service \<Rightarrow> string \<Rightarrow> (nat \<times> string list) \<times> service" where
  "import_transactions_from_csv svc csv_content =
     import_loop svc 0 (splitlines (strip csv_content)) 0 []"

section \<open>Valid dates and the values of the examples\<close>

text \<open>
  A date that the constructor \<^verbatim>\<open>datetime.date\<close> can build. Every date object of the
  program is one; the record type also holds triples that are no dates, and a statement
  that depends on the calendar assumes \<open>valid_date\<close>.
\<close>

definition valid_date :: "date \<Rightarrow> bool" where
  "valid_date d = (mk_date (year d) (month d) (day d) = Inr d)"

definition oct_1 :: date where
  "oct_1 = \<lparr>year = 2023, month = 10, day = 1\<rparr>"

definition nov_1 :: date where
  "nov_1 = \<lparr>year = 2023, month = 11, day = 1\<rparr>"

definition groceries :: transaction where
  "groceries = \<lparr>date = Date oct_1, amount = - 50, category = ''Groceries'',
                description = ''Weekly shop'', id' = Some 1\<rparr>"

definition salary :: transaction where
  "salary = \<lparr>date = Date oct_1, amount = 1000, category = ''Income'',
             description = ''Salary'', id' = None\<rparr>"

definition late_gift :: transaction where
  "late_gift = \<lparr>date = Date nov_1, amount = - 50, category = ''Gifts'',
                description = ''Birthday'', id' = Some 1\<rparr>"

definition refund :: transaction where
  "refund = \<lparr>date = Date oct_1, amount = 80, category = ''Groceries'',
             description = ''Refund'', id' = Some 2\<rparr>"

text \<open>A date with a time: 2023-10-01, half past twelve, no time zone.\<close>

definition half_past_twelve :: daytime where
  "half_past_twelve = \<lparr>hour = 12, minute = 30, second = 0, microsecond = 0, utcoffset = None\<rparr>"

definition timed_gift :: transaction where
  "timed_gift = \<lparr>date = DateTime oct_1 half_past_twelve, amount = - 50, category = ''Gifts'',
                 description = ''Birthday'', id' = Some 1\<rparr>"

text \<open>
  A store for the examples: the object at address 0 is \<open>salary\<close>, the one at address 1
  is \<open>groceries\<close>, and every other address holds \<open>refund\<close>.
\<close>

definition example_store :: "ref \<Rightarrow> transaction" where
  "example_store r = (if r = 0 then salary else if r = 1 then groceries else refund)"

section \<open>The month of the monthly methods\<close>

text \<open>
  The month window of the specification is half-open: from the first day of the month up
  to, and not including, the first day of the next month (\<open>in_month_window\<close>). The range
  that the monthly methods hand to \<^verbatim>\<open>list_transactions\<close> has the same two bounds and
  both are taken in (\<open>in_queried_range\<close>). \<open>month_ok\<close> are the months for which both bounds
  are dates: the constructor raises for the month after December 9999. \<open>plain_dates\<close>
  says that the dates of all transactions of a list are dates without a time, which is
  when the comparisons of \<^verbatim>\<open>list_transactions\<close> do not raise. \<open>queried\<close> are the
  transactions of the account in the queried range, in the order of the account,
  \<open>first_occurrences\<close> keeps the first occurrence of every element of a list, and
  \<open>net_total ts k\<close> is the signed sum of the amounts of the transactions of category \<open>k\<close>.
\<close>

definition month_start :: "int \<Rightarrow> int \<Rightarrow> date" where
  "month_start y m = \<lparr>year = y, month = m, day = 1\<rparr>"

definition next_month_start :: "int \<Rightarrow> int \<Rightarrow> date" where
  "next_month_start y m =
     (if m = 12 then \<lparr>year = y + 1, month = 1, day = 1\<rparr> else \<lparr>year = y, month = m + 1, day = 1\<rparr>)"

definition month_ok :: "int \<Rightarrow> int \<Rightarrow> bool" where
  "month_ok y m = (1 \<le> y \<and> y \<le> 9999 \<and> 1 \<le> m \<and> m \<le> 12 \<and> (y < 9999 \<or> m < 12))"

definition in_month_window :: "int \<Rightarrow> int \<Rightarrow> date \<Rightarrow> bool" where
  "in_month_window y m d = (date_le (month_start y m) d \<and> date_less d (next_month_start y m))"

definition in_queried_range :: "int \<Rightarrow> int \<Rightarrow> date \<Rightarrow> bool" where
  "in_queried_range y m d = (date_le (month_start y m) d \<and> date_le d (next_month_start y m))"

definition plain_dates :: "transaction list \<Rightarrow> bool" where
  "plain_dates ts = list_all (\<lambda>t. is_plain_date (date t)) ts"

definition queried :: "service \<Rightarrow> int \<Rightarrow> int \<Rightarrow> transaction list" where
  "queried svc y m =
     filter (\<lambda>t. in_queried_range y m (date_part (date t))) (transactions (account svc))"

definition first_occurrences :: "'a list \<Rightarrow> 'a list" where
  "first_occurrences xs = rev (remdups (rev xs))"

definition net_total :: "transaction list \<Rightarrow> string \<Rightarrow> real" where
  "net_total ts k = sum_list (map amount (filter (\<lambda>t. category t = k) ts))"


section \<open>Shapes of the fields of a line\<close>

text \<open>
  The fields of a line are the texts between its commas, without the whitespace around
  them. \<open>iso_shape\<close> is the shape \<^verbatim>\<open>YYYY-MM-DD\<close>, \<open>us_shape\<close> the shape \<^verbatim>\<open>M/D/YYYY\<close> with
  one or two digits for the month and the day, and \<open>amount_shape\<close> an optional minus sign,
  digits and an optional fraction.
\<close>

definition field :: "nat \<Rightarrow> string \<Rightarrow> string" where
  "field n line =
     (let fs = split_on (CHR '','') line in if n < length fs then strip (fs ! n) else [])"

definition iso_shape :: "string \<Rightarrow> bool" where
  "iso_shape s =
     (length s = 10 \<and> list_all is_digit (take 4 s) \<and> s ! 4 = CHR ''-'' \<and>
      list_all is_digit (take 2 (drop 5 s)) \<and> s ! 7 = CHR ''-'' \<and>
      list_all is_digit (drop 8 s))"

definition us_shape :: "string \<Rightarrow> bool" where
  "us_shape s =
     (case split_on (CHR ''/'') s of
        [m, d, y] \<Rightarrow>
          list_all is_digit m \<and> 1 \<le> length m \<and> length m \<le> 2 \<and>
          list_all is_digit d \<and> 1 \<le> length d \<and> length d \<le> 2 \<and>
          list_all is_digit y \<and> length y = 4
      | _ \<Rightarrow> False)"

text \<open>
  The texts of a date: \<^verbatim>\<open>isoformat\<close> gives the one of the shape \<^verbatim>\<open>YYYY-MM-DD\<close>, and
  \<open>us_text wm wd d\<close> is a text of the shape \<^verbatim>\<open>M/D/YYYY\<close> with the month filled with
  zeros to \<open>wm\<close> digits and the day to \<open>wd\<close> digits: with the widths 1 and 2 these are
  the texts with and without a leading zero. \<open>format_of\<close> is the format that
  \<^verbatim>\<open>parse_csv_line\<close> chooses for a text.
\<close>

definition us_text :: "nat \<Rightarrow> nat \<Rightarrow> date \<Rightarrow> string" where
  "us_text wm wd d =
     zero_pad wm (str_int (month d)) @ ''/'' @ zero_pad wd (str_int (day d)) @ ''/'' @
     zero_pad 4 (str_int (year d))"

definition format_of :: "string \<Rightarrow> date_format" where
  "format_of s = (if CHR ''/'' \<in> set s then MDY else YMD)"

definition amount_shape :: "string \<Rightarrow> bool" where
  "amount_shape s =
     (let body = (if take 1 s = ''-'' then drop 1 s else s);
          whole = takeWhile is_digit body;
          rest = dropWhile is_digit body
      in whole \<noteq> [] \<and>
         (rest = [] \<or> (take 1 rest = ''.'' \<and> drop 1 rest \<noteq> [] \<and> list_all is_digit (drop 1 rest))))"

text \<open>
  The texts a pattern matches as a whole, without the order of the attempts and the
  groups; \<open>token_char\<close> are the characters of a date or an amount, and \<open>tail_pattern\<close> is
  the pattern of \<^verbatim>\<open>parse_csv_line\<close> after the date.
\<close>

fun lang :: "regex \<Rightarrow> string \<Rightarrow> bool" where
  "lang Eps u = (u = [])"
| "lang (Lit c) u = (u = [c])"
| "lang (Rep p lo hi) u =
     (list_all p u \<and> lo \<le> length u \<and> (case hi of None \<Rightarrow> True | Some h \<Rightarrow> length u \<le> h))"
| "lang (Seq a b) u = (\<exists>v w. u = v @ w \<and> lang a v \<and> lang b w)"
| "lang (Alt a b) u = (lang a u \<or> lang b u)"
| "lang (Opt a) u = (lang a u \<or> u = [])"
| "lang (Grp n a) u = lang a u"

text \<open>The names of the groups of a pattern.\<close>

fun group_names :: "regex \<Rightarrow> group set" where
  "group_names Eps = {}"
| "group_names (Lit c) = {}"
| "group_names (Rep p lo hi) = {}"
| "group_names (Seq a b) = group_names a \<union> group_names b"
| "group_names (Alt a b) = group_names a \<union> group_names b"
| "group_names (Opt a) = group_names a"
| "group_names (Grp n a) = insert n (group_names a)"

definition token_char :: "char \<Rightarrow> bool" where
  "token_char c = (is_digit c \<or> c = CHR ''-'' \<or> c = CHR ''/'' \<or> c = CHR ''.'')"

definition tail_pattern :: regex where
  "tail_pattern = seqs [spaces, Lit (CHR '',''), spaces,
           Grp GAmount amount_pattern, spaces, Lit (CHR '',''), spaces,
           Grp GCategory (Rep (\<lambda>c. c \<noteq> CHR '','') 1 None), spaces,
           Opt (seqs [Lit (CHR '',''), spaces,
                      Grp GDescription (Rep (\<lambda>c. c \<noteq> CHR 0x0A) 0 None)])]"

section \<open>The import, line by line\<close>

text \<open>
  What one line yields on its own: the transaction that \<^verbatim>\<open>parse_csv_line\<close> and the
  constructor build from it, or the error of the first of the two that raises.
  \<open>imported_transactions n\<close> are the transactions of the lines that go through, numbered
  from \<open>n\<close> in the order of the lines, and \<open>line_errors i\<close> the messages of the lines that
  fail, each with its position counted from \<open>i + 1\<close>.
\<close>

definition line_transaction :: "string \<Rightarrow> error + transaction" where
  "line_transaction line =
     (case parse_csv_line line of
        Inl e \<Rightarrow> Inl e
      | Inr (d, a, c, ds) \<Rightarrow> Transaction_init (PyDate (Date d)) (PyFloat a) (PyStr c) ds None)"

fun imported_transactions :: "int \<Rightarrow> string list \<Rightarrow> transaction list" where
  "imported_transactions n [] = []"
| "imported_transactions n (l # ls) =
     (case line_transaction l of
        Inl e \<Rightarrow> imported_transactions n ls
      | Inr t \<Rightarrow> t\<lparr>id' := Some n\<rparr> # imported_transactions (n + 1) ls)"

fun line_errors :: "nat \<Rightarrow> string list \<Rightarrow> string list" where
  "line_errors i [] = []"
| "line_errors i (l # ls) =
     (case line_transaction l of
        Inl e \<Rightarrow> (''Line '' @ str_nat (i + 1) @ '': '' @ message e) # line_errors (i + 1) ls
      | Inr t \<Rightarrow> line_errors (i + 1) ls)"

definition csv_example :: string where
  "csv_example = ''2023-10-01,-50.00,Groceries,Weekly shop'' @ [CHR 0x0A] @
                 ''2023-10-02;12;Lunch'' @ [CHR 0x0A] @
                 ''10/02/2023,1000,Income''"

section \<open>Properties of the account\<close>

subsection \<open>Filters of \<^verbatim>\<open>list_transactions\<close>\<close>

text \<open>
  Claim C10. \<^verbatim>\<open>list_transactions\<close> applies a filter only when its argument is truthy:
  with the empty string as category no category filter is applied, the result is the one
  of the call without the argument (the same list, or the same error of a date filter),
  and with no date filter it is the whole list.
\<close>

theorem list_transactions_empty_category:
  "list_transactions a start_date end_date (Some []) = list_transactions a start_date end_date None
   \<and> list_transactions a None None (Some []) = Inr (transactions a)"
  by (simp add: list_transactions_def split: sum.splits option.splits)

subsection \<open>Identifiers\<close>

lemma check_date_id: "check_date v t = Inr t' \<Longrightarrow> id' t' = id' t"
  by (cases v) auto

lemma check_amount_id: "check_amount v t = Inr t' \<Longrightarrow> id' t' = id' t"
  by (cases v) (auto split: option.splits)

lemma check_category_id: "check_category v t = Inr t' \<Longrightarrow> id' t' = id' t"
  by (cases v) (auto split: if_splits)

lemma update_ids:
  "id' (objects (snd (update_transaction_ref a i d v c s)) r) = id' (objects a r)
   \<and> transactions_ref (snd (update_transaction_ref a i d v c s)) = transactions_ref a
   \<and> next_id_ref (snd (update_transaction_ref a i d v c s)) = next_id_ref a"
  by (auto simp: update_transaction_ref_def Let_def
      dest!: check_date_id check_amount_id check_category_id
      split: option.splits sum.splits)

lemma ids_ok_alt:
  "ids_ok a \<longleftrightarrow>
     (\<forall>r \<in> set (transactions_ref a).
        \<exists>i. (\<lambda>r. id' (objects a r)) r = Some i \<and> 1 \<le> i \<and> i < next_id_ref a)
     \<and> inj_on (\<lambda>r. id' (objects a r)) (set (transactions_ref a))"
  by (auto simp: ids_ok_def list_all_iff split: option.splits)

lemma ids_ok_update: "ids_ok a \<Longrightarrow> ids_ok (snd (update_transaction_ref a i d v c s))"
  unfolding ids_ok_alt by (simp add: update_ids)

lemma ids_ok_delete:
  assumes "ids_ok a" "delete_transaction_ref a i = Inr a'"
  shows "ids_ok a' \<and> next_id_ref a' = next_id_ref a"
proof -
  from assms(2) obtain r where a': "a' = a\<lparr>transactions_ref := remove1 r (transactions_ref a)\<rparr>"
    by (auto simp: delete_transaction_ref_def split: option.splits)
  have "set (remove1 r (transactions_ref a)) \<subseteq> set (transactions_ref a)"
    by (rule set_remove1_subset)
  then show ?thesis
    using assms(1) unfolding ids_ok_alt a' by (auto intro: inj_on_subset)
qed

lemma ids_ok_add:
  assumes "ids_ok a" "1 \<le> next_id_ref a" "add_transaction_ref a x = Inr a'"
  shows "ids_ok a'"
proof -
  from assms(3) obtain r where a': "a' =
      \<lparr>objects = (objects a)(r := (objects a r)\<lparr>id' := Some (next_id_ref a)\<rparr>),
       transactions_ref = transactions_ref a @ [r], next_id_ref = next_id_ref a + 1\<rparr>"
    by (auto simp: add_transaction_ref_def split: refarg.splits)
  have old: "\<forall>q \<in> set (transactions_ref a).
      \<exists>i. id' (objects a q) = Some i \<and> 1 \<le> i \<and> i < next_id_ref a"
    and inj: "inj_on (\<lambda>r. id' (objects a r)) (set (transactions_ref a))"
    using assms(1) unfolding ids_ok_alt by auto
  have 1: "\<forall>q \<in> set (transactions_ref a').
      \<exists>i. id' (objects a' q) = Some i \<and> 1 \<le> i \<and> i < next_id_ref a'"
    unfolding a' using old assms(2) by auto
  have 2: "inj_on (\<lambda>r. id' (objects a' r)) (set (transactions_ref a'))"
  proof (rule inj_onI)
    fix p q
    assume p: "p \<in> set (transactions_ref a')" and q: "q \<in> set (transactions_ref a')"
      and e: "id' (objects a' p) = id' (objects a' q)"
    show "p = q"
    proof (cases "p = r \<or> q = r")
      case True
      then show ?thesis using p q e old unfolding a' by (auto split: if_splits)
    next
      case False
      then show ?thesis using p q e inj unfolding a' by (auto dest: inj_onD)
    qed
  qed
  from 1 2 show ?thesis unfolding ids_ok_alt by simp
qed

lemma next_id_apply: "next_id_ref (apply_op a x) = next_id_ref a + (if is_add x then 1 else 0)"
proof (cases x)
  case (Add y)
  then show ?thesis by (cases y) (simp_all add: add_transaction_ref_def)
next
  case (Update i d v c s)
  then show ?thesis by (simp add: update_ids)
next
  case (Delete i)
  then show ?thesis
    by (simp add: delete_transaction_ref_def split: option.splits)
qed

lemma ids_ok_apply: "ids_ok a \<Longrightarrow> 1 \<le> next_id_ref a \<Longrightarrow> ids_ok (apply_op a x)"
proof (cases x)
  case (Add y)
  assume "ids_ok a" "1 \<le> next_id_ref a"
  with Add show ?thesis
    by (cases "add_transaction_ref a y") (auto dest: ids_ok_add)
next
  case (Update i d v c s)
  assume "ids_ok a"
  with Update show ?thesis by (simp add: ids_ok_update)
next
  case (Delete i)
  assume "ids_ok a"
  with Delete show ?thesis
    by (cases "delete_transaction_ref a i") (auto dest: ids_ok_delete)
qed

lemma assigned_eq: "assigned a x = (if is_add x then [next_id_ref a] else [])"
proof (cases x)
  case (Add y)
  then show ?thesis
    by (cases y) (simp_all add: add_transaction_ref_def stored_ids_def account_view_def)
qed simp_all

lemma run_next_id: "next_id_ref (run a xs) = next_id_ref a + int (adds xs)"
  by (induction xs arbitrary: a) (simp_all add: adds_def next_id_apply)

lemma run_ids_ok: "ids_ok a \<Longrightarrow> 1 \<le> next_id_ref a \<Longrightarrow> ids_ok (run a xs)"
proof (induction xs arbitrary: a)
  case Nil
  then show ?case by simp
next
  case (Cons x xs)
  have "1 \<le> next_id_ref (apply_op a x)" using Cons.prems(2) by (simp add: next_id_apply)
  with Cons show ?case by (simp add: ids_ok_apply)
qed

lemma run_assigned: "assigned_ids a xs = map (\<lambda>k. next_id_ref a + int k) [0..<adds xs]"
proof (induction xs arbitrary: a)
  case Nil
  then show ?case by (simp add: adds_def)
next
  case (Cons x xs)
  show ?case
  proof (cases "is_add x")
    case True
    have "[0..<Suc (adds xs)] = 0 # map Suc [0..<adds xs]"
      by (simp add: upt_conv_Cons map_Suc_upt del: upt_Suc)
    with True show ?thesis
      by (simp add: Cons.IH assigned_eq next_id_apply adds_def comp_def del: upt_Suc)
  next
    case False
    then show ?thesis by (simp add: Cons.IH assigned_eq next_id_apply adds_def)
  qed
qed

lemma ids_ok_init: "ids_ok (Account_init_ref store) \<and> next_id_ref (Account_init_ref store) = 1"
  by (simp add: ids_ok_def Account_init_ref_def)

lemma distinct_apply:
  "distinct (transactions_ref a) \<Longrightarrow> fresh_add a x \<Longrightarrow> distinct (transactions_ref (apply_op a x))"
proof (cases x)
  case (Add y)
  assume "distinct (transactions_ref a)" "fresh_add a x"
  with Add show ?thesis by (cases y) (simp_all add: add_transaction_ref_def)
next
  case (Update i d v c s)
  assume "distinct (transactions_ref a)"
  with Update show ?thesis by (simp add: update_ids)
next
  case (Delete i)
  assume "distinct (transactions_ref a)"
  with Delete show ?thesis
    by (simp add: delete_transaction_ref_def split: option.splits)
qed

lemma distinct_run:
  "distinct (transactions_ref a) \<Longrightarrow> fresh_adds a xs \<Longrightarrow> distinct (transactions_ref (run a xs))"
  by (induction xs arbitrary: a) (simp_all add: distinct_apply)

lemma stored_ids_eq: "stored_ids a = map (\<lambda>r. id' (objects a r)) (transactions_ref a)"
  by (simp add: stored_ids_def account_view_def)

text \<open>
  Claim C7, as stated, is about every sequence of operations, and it fails for the
  sequence that adds one object twice: the second add writes the id 2 into the object
  that the list already holds, so the two entries of the list carry the same id.
\<close>

theorem same_object_added_twice:
  "stored_ids (run (Account_init_ref example_store) [Add (Ref 0), Add (Ref 0)])
     = [Some 2, Some 2]
   \<and> \<not> distinct (stored_ids (run (Account_init_ref example_store) [Add (Ref 0), Add (Ref 0)]))
   \<and> transactions_ref (run (Account_init_ref example_store) [Add (Ref 0), Add (Ref 0)]) = [0, 0]"
  by (simp add: stored_ids_eq Account_init_ref_def add_transaction_ref_def)

text \<open>
  Claim C7, amended. Start from a new account and run any sequence of adds, updates and
  deletes, failing calls included, on any store of objects. The ids given out by the
  adds that go through are 1, 2, ..., N in this order, whatever the transactions hold,
  and \<open>next_id\<close> ends at N + 1. In the state reached, \<open>next_id\<close> is above every id that was
  ever given out and above the id of every listed object, and the ids given out are
  strictly increasing, so the id of a deleted transaction is not given out again. Two
  entries of the list with the same id are the same object; and when no add of the
  sequence is given an object that the account holds at that moment, no two entries of
  the list have the same id.
\<close>

theorem account_ids:
  "assigned_ids (Account_init_ref store) ops = map int [1..<Suc (adds ops)]
   \<and> next_id_ref (run (Account_init_ref store) ops) = int (adds ops) + 1
   \<and> (\<forall>i \<in> set (assigned_ids (Account_init_ref store) ops).
         i < next_id_ref (run (Account_init_ref store) ops))
   \<and> (\<forall>r \<in> set (transactions_ref (run (Account_init_ref store) ops)).
         \<exists>i. id' (objects (run (Account_init_ref store) ops) r) = Some i \<and> 1 \<le> i \<and>
             i < next_id_ref (run (Account_init_ref store) ops))
   \<and> sorted_wrt (<) (assigned_ids (Account_init_ref store) ops)
   \<and> (\<forall>r \<in> set (transactions_ref (run (Account_init_ref store) ops)).
       \<forall>q \<in> set (transactions_ref (run (Account_init_ref store) ops)).
         id' (objects (run (Account_init_ref store) ops) r) =
         id' (objects (run (Account_init_ref store) ops) q) \<longrightarrow> r = q)
   \<and> (fresh_adds (Account_init_ref store) ops \<longrightarrow>
         distinct (stored_ids (run (Account_init_ref store) ops)))"
proof -
  let ?a = "Account_init_ref store"
  have a: "assigned_ids ?a ops = map int [1..<Suc (adds ops)]"
    by (simp add: run_assigned ids_ok_init map_Suc_upt[symmetric] comp_def del: upt_Suc)
  have n: "next_id_ref (run ?a ops) = int (adds ops) + 1"
    by (simp add: run_next_id ids_ok_init)
  have l: "\<forall>i \<in> set (assigned_ids ?a ops). i < next_id_ref (run ?a ops)"
    unfolding a n by (auto simp del: upt_Suc)
  have s: "sorted_wrt (<) (assigned_ids ?a ops)"
    unfolding a by (simp add: sorted_wrt_map del: upt_Suc)
  have ok: "ids_ok (run ?a ops)"
    using run_ids_ok[of ?a ops] ids_ok_init by simp
  then have o: "\<forall>r \<in> set (transactions_ref (run ?a ops)).
         \<exists>i. id' (objects (run ?a ops) r) = Some i \<and> 1 \<le> i \<and> i < next_id_ref (run ?a ops)"
    unfolding ids_ok_alt by auto
  have inj: "inj_on (\<lambda>r. id' (objects (run ?a ops) r)) (set (transactions_ref (run ?a ops)))"
    using ok unfolding ids_ok_alt by simp
  then have u: "\<forall>r \<in> set (transactions_ref (run ?a ops)).
       \<forall>q \<in> set (transactions_ref (run ?a ops)).
         id' (objects (run ?a ops) r) = id' (objects (run ?a ops) q) \<longrightarrow> r = q"
    by (auto dest: inj_onD)
  have d: "fresh_adds ?a ops \<longrightarrow> distinct (stored_ids (run ?a ops))"
  proof
    assume "fresh_adds ?a ops"
    then have "distinct (transactions_ref (run ?a ops))"
      by (intro distinct_run) (simp_all add: Account_init_ref_def)
    then show "distinct (stored_ids (run ?a ops))"
      unfolding stored_ids_eq using inj by (simp add: distinct_map)
  qed
  from a n l s o u d show ?thesis by blast
qed

text \<open>
  A sequence with three adds of different objects, a delete, an update of a missing id
  and an add of a value that is no transaction: the ids given out are 1, 2, 3, the
  counter ends at 4, and the two objects left carry the ids 1 and 3.
\<close>

theorem account_ids_witness:
  "fresh_adds (Account_init_ref example_store)
     [Add (Ref 0), Add (Ref 1), Delete 2, Update 7 PyNone PyNone PyNone None,
      Add (NoTransaction PyNone), Add (Ref 2)]
   \<and> assigned_ids (Account_init_ref example_store)
     [Add (Ref 0), Add (Ref 1), Delete 2, Update 7 PyNone PyNone PyNone None,
      Add (NoTransaction PyNone), Add (Ref 2)]
     = [1, 2, 3]
   \<and> next_id_ref (run (Account_init_ref example_store)
     [Add (Ref 0), Add (Ref 1), Delete 2, Update 7 PyNone PyNone PyNone None,
      Add (NoTransaction PyNone), Add (Ref 2)])
     = 4
   \<and> stored_ids (run (Account_init_ref example_store)
     [Add (Ref 0), Add (Ref 1), Delete 2, Update 7 PyNone PyNone PyNone None,
      Add (NoTransaction PyNone), Add (Ref 2)])
     = [Some 1, Some 3]"
  using account_ids[of example_store
     "[Add (Ref 0), Add (Ref 1), Delete 2, Update 7 PyNone PyNone PyNone None,
       Add (NoTransaction PyNone), Add (Ref 2)]"]
  by (simp add: adds_def Account_init_ref_def add_transaction_ref_def delete_transaction_ref_def
      update_transaction_ref_def get_transaction_by_id_ref_def stored_ids_eq)

subsection \<open>The account of transactions and the store of objects\<close>

text \<open>
  The methods on the list of transactions are the methods on the store, seen through
  \<open>account_view\<close>: \<^verbatim>\<open>get_transaction_by_id\<close> and \<^verbatim>\<open>delete_transaction\<close> always,
  \<^verbatim>\<open>update_transaction\<close> when no object is listed twice, and \<^verbatim>\<open>add_transaction\<close> when the
  object added is not in the list. By \<open>distinct_run\<close> no object is listed twice after a
  sequence of operations whose adds are all of this kind.
\<close>

lemma find_store: "find P (map store refs) = map_option store (find (\<lambda>r. P (store r)) refs)"
  by (induction refs) auto

lemma find_store_id:
  "find (\<lambda>q. id' (store q) = Some i) refs = Some r \<Longrightarrow> id' (store r) = Some i \<and> r \<in> set refs"
  by (induction refs) (auto split: if_splits)

lemma view_get:
  "get_transaction_by_id (account_view a) i = map_option (objects a) (get_transaction_by_id_ref a i)"
  by (simp add: get_transaction_by_id_def get_transaction_by_id_ref_def account_view_def
      find_store)

lemma view_add:
  "r \<notin> set (transactions_ref a) \<Longrightarrow>
   add_transaction (account_view a) (TransactionObj (objects a r)) =
     map_sum id account_view (add_transaction_ref a (Ref r))"
  by (simp add: add_transaction_def add_transaction_ref_def account_view_def)

lemma view_add_other:
  "add_transaction (account_view a) (OtherObj v) =
     map_sum id account_view (add_transaction_ref a (NoTransaction v))"
  by (simp add: add_transaction_def add_transaction_ref_def)

lemma put_transaction_store:
  "find (\<lambda>q. id' (store q) = Some i) refs = Some r \<Longrightarrow> distinct refs \<Longrightarrow>
   put_transaction i t' (map store refs) = map (store(r := t')) refs"
  by (induction refs) (auto split: if_splits dest: find_store_id)

lemma remove1_store:
  fixes store :: "ref \<Rightarrow> transaction"
  shows "find (\<lambda>q. id' (store q) = Some i) refs = Some r \<Longrightarrow>
   remove1 (store r) (map store refs) = map store (remove1 r refs)"
proof (induction refs)
  case Nil
  then show ?case by simp
next
  case (Cons q qs)
  show ?case
  proof (cases "id' (store q) = Some i")
    case True
    then have "q = r" using Cons.prems by simp
    then show ?thesis by simp
  next
    case False
    then have f: "find (\<lambda>q. id' (store q) = Some i) qs = Some r" using Cons.prems by simp
    have i: "id' (store r) = Some i" using find_store_id[OF f] by simp
    have 1: "store q \<noteq> store r"
    proof
      assume "store q = store r"
      then have "id' (store q) = id' (store r)" by (rule arg_cong)
      with i False show False by simp
    qed
    have 2: "q \<noteq> r" using 1 by blast
    have "remove1 (store r) (map store (q # qs)) = store q # remove1 (store r) (map store qs)"
      using 1 by simp
    also have "\<dots> = store q # map store (remove1 r qs)" by (simp only: Cons.IH[OF f])
    also have "\<dots> = map store (remove1 r (q # qs))" using 2 by simp
    finally show ?thesis .
  qed
qed

lemma view_update:
  assumes "distinct (transactions_ref a)"
  shows "update_transaction (account_view a) i d v c s =
         map_prod id account_view (update_transaction_ref a i d v c s)"
proof (cases "get_transaction_by_id_ref a i")
  case None
  then show ?thesis
    by (simp add: update_transaction_def update_transaction_ref_def view_get)
next
  case (Some r)
  then have f: "find (\<lambda>q. id' (objects a q) = Some i) (transactions_ref a) = Some r"
    by (simp add: get_transaction_by_id_ref_def)
  have p: "put_transaction i t' (transactions (account_view a)) =
           map ((objects a)(r := t')) (transactions_ref a)" for t'
    using put_transaction_store[OF f assms] by (simp add: account_view_def)
  show ?thesis
    using Some
    by (simp add: update_transaction_def update_transaction_ref_def view_get p Let_def
        split: sum.splits option.splits)
      (simp add: account_view_def)
qed

lemma view_delete:
  "delete_transaction (account_view a) i =
     map_sum id account_view (delete_transaction_ref a i)"
proof (cases "get_transaction_by_id_ref a i")
  case None
  then show ?thesis
    by (simp add: delete_transaction_def delete_transaction_ref_def view_get)
next
  case (Some r)
  then have f: "find (\<lambda>q. id' (objects a q) = Some i) (transactions_ref a) = Some r"
    by (simp add: get_transaction_by_id_ref_def)
  show ?thesis
    using Some remove1_store[OF f]
    by (simp add: delete_transaction_def delete_transaction_ref_def view_get)
      (simp add: account_view_def)
qed

subsection \<open>Updates are not atomic\<close>

lemma find_id: "find (\<lambda>t. id' t = Some i) ts = Some t \<Longrightarrow> id' t = Some i"
  by (induction ts) (auto split: if_splits)

lemma find_put:
  "find (\<lambda>t. id' t = Some i) ts = Some t \<Longrightarrow> id' t' = Some i \<Longrightarrow>
   find (\<lambda>t. id' t = Some i) (put_transaction i t' ts) = Some t'"
  by (induction ts) (auto split: if_splits)

lemma found_id: "get_transaction_by_id a i = Some t \<Longrightarrow> id' t = Some i"
  by (auto simp: get_transaction_by_id_def find_Some_iff)

text \<open>
  Claim C9. \<^verbatim>\<open>update_transaction\<close> checks and writes the fields in the order date,
  amount, category, description. For a transaction that is found: a date that fails its
  check raises before anything is written; an amount that fails its check raises after a
  valid date has been written; a category that fails its check raises after a valid date
  and a valid amount have been written. The transaction found under the id after the
  failed call carries the fields written so far.
\<close>

theorem update_transaction_not_atomic:
  assumes found: "get_transaction_by_id a i = Some t"
  shows
    "(date_arg \<noteq> PyNone \<and> \<not> isinstance_date date_arg \<longrightarrow>
        update_transaction a i date_arg amount_arg category_arg description_arg =
          (Some (InvalidTransactionError ''date must be a datetime.date instance''), a))
     \<and> (amount_arg \<noteq> PyNone \<and> \<not> isinstance_number amount_arg \<longrightarrow>
        (\<exists>a'. update_transaction a i (PyDate d) amount_arg category_arg description_arg =
                (Some (InvalidTransactionError ''amount must be a number''), a')
              \<and> get_transaction_by_id a' i = Some (t\<lparr>date := d\<rparr>)))
     \<and> (category_arg \<noteq> PyNone \<and> (\<not> isinstance_str category_arg \<or> category_arg = PyStr []) \<longrightarrow>
        (\<exists>a'. update_transaction a i (PyDate d) (PyFloat r) category_arg description_arg =
                (Some (InvalidTransactionError ''category must be a non-empty string''), a')
              \<and> get_transaction_by_id a' i = Some (t\<lparr>date := d, amount := r\<rparr>)))"
proof (intro conjI impI)
  assume "date_arg \<noteq> PyNone \<and> \<not> isinstance_date date_arg"
  then show "update_transaction a i date_arg amount_arg category_arg description_arg =
          (Some (InvalidTransactionError ''date must be a datetime.date instance''), a)"
    using found by (cases date_arg) (simp_all add: update_transaction_def)
next
  assume h: "amount_arg \<noteq> PyNone \<and> \<not> isinstance_number amount_arg"
  have i: "id' (t\<lparr>date := d\<rparr>) = Some i" using found_id[OF found] by simp
  from h have "check_amount amount_arg (t\<lparr>date := d\<rparr>) =
      Inl (InvalidTransactionError ''amount must be a number'')"
    by (cases amount_arg) simp_all
  then show "\<exists>a'. update_transaction a i (PyDate d) amount_arg category_arg description_arg =
                (Some (InvalidTransactionError ''amount must be a number''), a')
              \<and> get_transaction_by_id a' i = Some (t\<lparr>date := d\<rparr>)"
    using found find_put[OF _ i, of "transactions a" t]
    by (simp add: update_transaction_def get_transaction_by_id_def)
next
  assume h: "category_arg \<noteq> PyNone \<and> (\<not> isinstance_str category_arg \<or> category_arg = PyStr [])"
  have i: "id' (t\<lparr>date := d, amount := r\<rparr>) = Some i" using found_id[OF found] by simp
  from h have "check_category category_arg (t\<lparr>date := d, amount := r\<rparr>) =
      Inl (InvalidTransactionError ''category must be a non-empty string'')"
    by (cases category_arg) auto
  then show "\<exists>a'. update_transaction a i (PyDate d) (PyFloat r) category_arg description_arg =
                (Some (InvalidTransactionError ''category must be a non-empty string''), a')
              \<and> get_transaction_by_id a' i = Some (t\<lparr>date := d, amount := r\<rparr>)"
    using found find_put[OF _ i, of "transactions a" t]
    by (simp add: update_transaction_def get_transaction_by_id_def)
qed

text \<open>
  The input of the claim: a valid date together with an amount that is a string. The
  call raises and the stored date has changed from 2023-10-01 to 2023-11-01.
\<close>

theorem update_transaction_not_atomic_witness:
  "fst (update_transaction \<lparr>transactions = [groceries], next_id = 2\<rparr> 1
          (PyDate (Date nov_1)) (PyStr ''12.50'') PyNone None)
     = Some (InvalidTransactionError ''amount must be a number'')
   \<and> map date (transactions (snd (update_transaction \<lparr>transactions = [groceries], next_id = 2\<rparr> 1
          (PyDate (Date nov_1)) (PyStr ''12.50'') PyNone None)))
     = [Date \<lparr>year = 2023, month = 11, day = 1\<rparr>]
   \<and> date groceries = Date \<lparr>year = 2023, month = 10, day = 1\<rparr>"
  using update_transaction_not_atomic[where a = "\<lparr>transactions = [groceries], next_id = 2\<rparr>"
     and i = 1 and t = groceries and amount_arg = "PyStr ''12.50''" and category_arg = PyNone
     and d = "Date nov_1" and description_arg = None]
  by (simp add: update_transaction_def get_transaction_by_id_def groceries_def nov_1_def oct_1_def)

section \<open>Properties of transactions\<close>

subsection \<open>Decimal numerals\<close>

lemma digit_value_nth: "k < 10 \<Longrightarrow> digit_value (''0123456789'' ! k) = k"
proof -
  assume "k < 10"
  then have "k \<in> {0, 1, 2, 3, 4, 5, 6, 7, 8, 9}" by auto
  then show ?thesis by (auto simp: digit_value_def)
qed

lemma nat_of_digits_snoc: "nat_of_digits (s @ [c]) = 10 * nat_of_digits s + digit_value c"
  by (simp add: nat_of_digits_def)

lemma nat_of_digits_str_nat: "nat_of_digits (str_nat n) = n"
proof (induction n rule: str_nat.induct)
  case (1 n)
  show ?case
  proof (cases "n < 10")
    case True
    then show ?thesis
      using nat_of_digits_snoc[of "[]" "''0123456789'' ! n"]
      by (subst str_nat.simps) (simp add: digit_value_nth nat_of_digits_def)
  next
    case False
    then show ?thesis
      using 1 by (subst str_nat.simps) (simp add: nat_of_digits_snoc digit_value_nth)
  qed
qed

lemma nat_of_digits_zeros: "nat_of_digits (replicate k (CHR ''0'') @ s) = nat_of_digits s"
proof -
  have "foldl (\<lambda>n c. 10 * n + digit_value c) 0 (replicate k (CHR ''0'')) = 0"
    by (induction k) (simp_all add: digit_value_def)
  then show ?thesis by (simp add: nat_of_digits_def)
qed

lemma nat_of_digits_zero_pad: "nat_of_digits (zero_pad w (str_nat n)) = n"
  by (simp add: zero_pad_def nat_of_digits_zeros nat_of_digits_str_nat)

lemma length_str_nat: "0 < k \<Longrightarrow> n < 10 ^ k \<Longrightarrow> length (str_nat n) \<le> k"
proof (induction n arbitrary: k rule: str_nat.induct)
  case (1 n)
  show ?case
  proof (cases "n < 10")
    case True
    then show ?thesis using "1.prems" by (subst str_nat.simps) simp
  next
    case False
    obtain j where k: "k = Suc j" using "1.prems"(1) by (cases k) auto
    have "j \<noteq> 0" using False "1.prems"(2) k by (cases j) auto
    moreover have "n div 10 < 10 ^ j" using "1.prems"(2) k by (simp add: less_mult_imp_div_less mult.commute)
    ultimately have "length (str_nat (n div 10)) \<le> j" using "1.IH"[OF False, of j] by simp
    then show ?thesis using False k by (subst str_nat.simps) simp
  qed
qed

lemma length_zero_pad: "length s \<le> w \<Longrightarrow> length (zero_pad w s) = w"
  by (simp add: zero_pad_def)

lemma valid_dateD:
  "valid_date d \<Longrightarrow> 1 \<le> year d \<and> year d \<le> 9999 \<and> 1 \<le> month d \<and> month d \<le> 12 \<and> 1 \<le> day d \<and> day d \<le> 31"
  by (auto simp: valid_date_def mk_date_def days_in_month_def split: if_splits option.splits)

lemma isoformat_parts:
  assumes "valid_date d"
  shows "isoformat d = zero_pad 4 (str_nat (nat (year d))) @ ''-'' @ zero_pad 2 (str_nat (nat (month d))) @ ''-'' @ zero_pad 2 (str_nat (nat (day d)))"
   and "length (zero_pad 4 (str_nat (nat (year d)))) = 4"
   and "length (zero_pad 2 (str_nat (nat (month d)))) = 2"
   and "length (zero_pad 2 (str_nat (nat (day d)))) = 2"
proof -
  note v = valid_dateD[OF assms]
  show "isoformat d = zero_pad 4 (str_nat (nat (year d))) @ ''-'' @ zero_pad 2 (str_nat (nat (month d))) @ ''-'' @ zero_pad 2 (str_nat (nat (day d)))"
    using v by (simp add: isoformat_def str_int_def)
  have "nat (year d) < 10 ^ 4" using v by auto
  then show "length (zero_pad 4 (str_nat (nat (year d)))) = 4"
    by (intro length_zero_pad length_str_nat) simp_all
  have "nat (month d) < 10 ^ 2" using v by auto
  then show "length (zero_pad 2 (str_nat (nat (month d)))) = 2"
    by (intro length_zero_pad length_str_nat) simp_all
  have "nat (day d) < 10 ^ 2" using v by auto
  then show "length (zero_pad 2 (str_nat (nat (day d)))) = 2"
    by (intro length_zero_pad length_str_nat) simp_all
qed




subsection \<open>Construction and the external view\<close>




section \<open>Properties of the monthly methods\<close>

lemma py_sum_sum_list: "py_sum xs = sum_list xs"
proof -
  have "foldl (+) a xs = a + sum_list xs" for a :: real
    by (induction xs arbitrary: a) simp_all
  then show ?thesis by (simp add: py_sum_def)
qed

lemma mk_date_month_start: "month_ok y m \<Longrightarrow> mk_date y m 1 = Inr (month_start y m)"
  by (auto simp: month_ok_def mk_date_def c_int_def month_start_def days_in_month_def)

lemma mk_date_next_month_start:
  "month_ok y m \<Longrightarrow>
   (if m = 12 then mk_date (y + 1) 1 1 else mk_date y (m + 1) 1) = Inr (next_month_start y m)"
  by (auto simp: month_ok_def mk_date_def c_int_def next_month_start_def days_in_month_def)

lemma filter_checked_ge:
  "filter_checked (\<lambda>t. date_value_ge (date t) s) ts =
     (if plain_dates ts then Inr (filter (\<lambda>t. date_le s (date_part (date t))) ts)
      else Inl cannot_compare)"
proof (induction ts)
  case Nil
  then show ?case by (simp add: plain_dates_def)
next
  case (Cons t ts)
  then show ?case by (cases "date t") (simp_all add: plain_dates_def)
qed

lemma filter_checked_le:
  "filter_checked (\<lambda>t. date_value_le (date t) e) ts =
     (if plain_dates ts then Inr (filter (\<lambda>t. date_le (date_part (date t)) e) ts)
      else Inl cannot_compare)"
proof (induction ts)
  case Nil
  then show ?case by (simp add: plain_dates_def)
next
  case (Cons t ts)
  then show ?case by (cases "date t") (simp_all add: plain_dates_def)
qed

lemma plain_dates_filter: "plain_dates ts \<Longrightarrow> plain_dates (filter P ts)"
  by (simp add: plain_dates_def list_all_iff)

lemma list_transactions_range:
  "list_transactions a (Some s) (Some e) None =
     (if plain_dates (transactions a)
      then Inr (filter (\<lambda>t. date_le s (date_part (date t)) \<and> date_le (date_part (date t)) e)
                  (transactions a))
      else Inl cannot_compare)"
  by (simp add: list_transactions_def filter_checked_ge filter_checked_le plain_dates_filter
      conj_commute)

lemma monthly_transactions_queried:
  "month_ok y m \<Longrightarrow>
   monthly_transactions svc today (Some y) (Some m) =
     (if plain_dates (transactions (account svc)) then Inr (queried svc y m)
      else Inl cannot_compare)"
  using mk_date_next_month_start[of y m]
  by (simp add: monthly_transactions_def mk_date_month_start list_transactions_range queried_def
      in_queried_range_def del: mk_date_next_month_start)

lemma monthly_transactions_default:
  "monthly_transactions svc today None None =
   monthly_transactions svc today (Some (year today)) (Some (month today))"
  by (simp add: monthly_transactions_def)

lemma next_month_start_queried: "in_queried_range y m (next_month_start y m)"
  by (auto simp: in_queried_range_def date_le_def month_start_def next_month_start_def)

lemma next_month_start_outside: "\<not> in_month_window y m (next_month_start y m)"
  by (simp add: in_month_window_def date_less_def)

lemma window_subset: "in_month_window y m d \<Longrightarrow> in_queried_range y m d"
  by (simp add: in_month_window_def in_queried_range_def date_less_def)

lemma queried_split: "in_queried_range y m d \<longleftrightarrow> in_month_window y m d \<or> d = next_month_start y m"
  by (cases d) (auto simp: in_month_window_def in_queried_range_def date_less_def date_le_def next_month_start_def month_start_def)

lemma totals_loop_snoc:
  "totals_loop d (ts @ [t]) =
   dict_set (totals_loop d ts) (category t) (dict_get (totals_loop d ts) (category t) 0 + amount t)"
  by (induction ts arbitrary: d) simp_all

lemma dict_get_table:
  "dict_get (map (\<lambda>k. (k, f k)) ks) k dflt = (if k \<in> set ks then f k else dflt)"
  by (induction ks) auto

lemma dict_set_table_old:
  "k \<in> set ks \<Longrightarrow> distinct ks \<Longrightarrow>
   dict_set (map (\<lambda>j. (j, f j)) ks) k v = map (\<lambda>j. (j, if j = k then v else f j)) ks"
  by (induction ks) auto

lemma dict_set_table_new:
  "k \<notin> set ks \<Longrightarrow> dict_set (map (\<lambda>j. (j, f j)) ks) k v = map (\<lambda>j. (j, f j)) ks @ [(k, v)]"
  by (induction ks) auto

lemma first_occurrences_snoc:
  "first_occurrences (xs @ [x]) =
   (if x \<in> set xs then first_occurrences xs else first_occurrences xs @ [x])"
  by (simp add: first_occurrences_def)

lemma set_first_occurrences: "set (first_occurrences xs) = set xs"
  by (simp add: first_occurrences_def)

lemma distinct_first_occurrences: "distinct (first_occurrences xs)"
  by (simp add: first_occurrences_def)

lemma net_total_snoc:
  "net_total (ts @ [t]) k = (if category t = k then net_total ts k + amount t else net_total ts k)"
  by (simp add: net_total_def)

lemma net_total_absent: "k \<notin> category ` set ts \<Longrightarrow> net_total ts k = 0"
proof -
  assume "k \<notin> category ` set ts"
  then have "filter (\<lambda>t. category t = k) ts = []" by (auto simp: filter_empty_conv)
  then show ?thesis by (simp add: net_total_def)
qed

lemma totals_loop_table:
  "totals_loop [] ts = map (\<lambda>k. (k, net_total ts k)) (first_occurrences (map category ts))"
proof (induction ts rule: rev_induct)
  case Nil
  then show ?case by (simp add: first_occurrences_def)
next
  case (snoc t ts)
  show ?case
  proof (cases "category t \<in> category ` set ts")
    case True
    then have m: "category t \<in> set (first_occurrences (map category ts))"
      by (simp add: set_first_occurrences)
    show ?thesis
      using True
      by (simp add: totals_loop_snoc snoc.IH dict_get_table dict_set_table_old[OF m distinct_first_occurrences]
          first_occurrences_snoc set_first_occurrences net_total_snoc)
  next
    case False
    then have m: "category t \<notin> set (first_occurrences (map category ts))"
      by (simp add: set_first_occurrences)
    have z: "net_total ts (category t) = 0" using False by (rule net_total_absent)
    have o: "\<forall>k \<in> set (first_occurrences (map category ts)). category t \<noteq> k"
      using m by auto
    show ?thesis
      using False o
      by (simp add: totals_loop_snoc snoc.IH dict_get_table dict_set_table_new[OF m]
          first_occurrences_snoc set_first_occurrences net_total_snoc z)
  qed
qed

lemma queried_eq:
  "queried svc y m =
   filter (\<lambda>t. in_month_window y m (date_part (date t)) \<or>
               date_part (date t) = next_month_start y m)
     (transactions (account svc))"
  by (simp add: queried_def queried_split)

text \<open>
  Claim C1 says that the monthly methods take exactly the transactions of the half-open
  month window. The code does not: for every month with both bounds, the transactions
  it aggregates are those of the half-open window together with those dated exactly on
  the first day of the next month, which is outside the window. The end of the range is
  as the claim says: for December it is January 1 of the next year. (When a transaction
  of the account carries a \<^verbatim>\<open>datetime.datetime\<close>, the comparison with the bounds raises
  \<^verbatim>\<open>TypeError\<close> and so does the method.)
\<close>

theorem monthly_query_takes_next_month_start:
  "month_ok y m \<Longrightarrow>
   monthly_transactions svc today (Some y) (Some m) =
     (if plain_dates (transactions (account svc))
      then Inr (filter (\<lambda>t. in_month_window y m (date_part (date t)) \<or>
                           date_part (date t) = next_month_start y m)
                  (transactions (account svc)))
      else Inl cannot_compare)
   \<and> \<not> in_month_window y m (next_month_start y m)
   \<and> next_month_start y 12 = \<lparr>year = y + 1, month = 1, day = 1\<rparr>"
proof (intro conjI)
  assume "month_ok y m"
  then show "monthly_transactions svc today (Some y) (Some m) =
     (if plain_dates (transactions (account svc))
      then Inr (filter (\<lambda>t. in_month_window y m (date_part (date t)) \<or>
                           date_part (date t) = next_month_start y m)
                  (transactions (account svc)))
      else Inl cannot_compare)"
    by (simp add: monthly_transactions_queried queried_eq)
  show "\<not> in_month_window y m (next_month_start y m)"
    by (rule next_month_start_outside)
  show "next_month_start y 12 = \<lparr>year = y + 1, month = 1, day = 1\<rparr>"
    by (simp add: next_month_start_def)
qed

theorem monthly_query_takes_next_month_start_witness:
  "monthly_transactions \<lparr>account = \<lparr>transactions = [late_gift], next_id = 2\<rparr>, budget = None\<rparr>
     oct_1 (Some 2023) (Some 10) = Inr [late_gift]
   \<and> get_monthly_spending \<lparr>account = \<lparr>transactions = [late_gift], next_id = 2\<rparr>, budget = None\<rparr>
     oct_1 (Some 2023) (Some 10) = Inr 50
   \<and> date late_gift = Date \<lparr>year = 2023, month = 11, day = 1\<rparr>
   \<and> monthly_transactions \<lparr>account = \<lparr>transactions = [timed_gift], next_id = 2\<rparr>, budget = None\<rparr>
     oct_1 (Some 2023) (Some 10) = Inl cannot_compare"
  using monthly_query_takes_next_month_start[of 2023 10
      "\<lparr>account = \<lparr>transactions = [late_gift], next_id = 2\<rparr>, budget = None\<rparr>" oct_1]
    monthly_query_takes_next_month_start[of 2023 10
      "\<lparr>account = \<lparr>transactions = [timed_gift], next_id = 2\<rparr>, budget = None\<rparr>" oct_1]
  by (simp add: month_ok_def get_monthly_spending_def late_gift_def timed_gift_def nov_1_def
      next_month_start_def py_sum_def plain_dates_def)

text \<open>
  Claim C3 says that \<^verbatim>\<open>get_monthly_spending\<close> is the sum of the absolute values of the
  negative amounts, and \<^verbatim>\<open>get_monthly_income\<close> the sum of the positive amounts, of the
  transactions in the month window. In the code both sums run over the queried range
  (and are 0 when it holds no such transaction). The queried range is the month window
  when no transaction is dated on the first day of the next month; otherwise the sums
  take such transactions in as well. (When a transaction of the account carries a
  \<^verbatim>\<open>datetime.datetime\<close>, both methods raise \<^verbatim>\<open>TypeError\<close>.)
\<close>

theorem monthly_sums:
  "month_ok y m \<Longrightarrow>
   get_monthly_spending svc today (Some y) (Some m) =
     (if plain_dates (transactions (account svc))
      then Inr (sum_list (map (\<lambda>t. \<bar>amount t\<bar>) (filter (\<lambda>t. amount t < 0) (queried svc y m))))
      else Inl cannot_compare)
   \<and> get_monthly_income svc today (Some y) (Some m) =
     (if plain_dates (transactions (account svc))
      then Inr (sum_list (map amount (filter (\<lambda>t. 0 < amount t) (queried svc y m))))
      else Inl cannot_compare)
   \<and> ((\<forall>t \<in> set (transactions (account svc)). date_part (date t) \<noteq> next_month_start y m) \<longrightarrow>
        queried svc y m =
          filter (\<lambda>t. in_month_window y m (date_part (date t))) (transactions (account svc)))"
  by (auto simp: get_monthly_spending_def get_monthly_income_def monthly_transactions_queried
      py_sum_sum_list queried_eq intro: filter_cong)

theorem monthly_sums_witness:
  "get_monthly_spending \<lparr>account = \<lparr>transactions = [late_gift], next_id = 2\<rparr>, budget = None\<rparr>
     oct_1 (Some 2023) (Some 10) = Inr 50
   \<and> filter (\<lambda>t. in_month_window 2023 10 (date_part (date t))) [late_gift] = []"
  using monthly_sums[of 2023 10
      "\<lparr>account = \<lparr>transactions = [late_gift], next_id = 2\<rparr>, budget = None\<rparr>" oct_1]
  by (simp add: month_ok_def queried_def in_queried_range_def in_month_window_def date_le_def
      date_less_def month_start_def next_month_start_def late_gift_def nov_1_def
      plain_dates_def)

text \<open>
  Claim C4 says that \<^verbatim>\<open>get_category_totals\<close> lists the categories of the month window
  and \<^verbatim>\<open>get_category_spending\<close> those of them with a negative total. In the code
  \<^verbatim>\<open>get_category_totals\<close> lists the categories of the transactions in the queried range
  once each, in the order of their first occurrence, with the signed sum of their
  amounts; \<^verbatim>\<open>get_category_spending\<close> keeps the categories with a negative sum and gives
  the sum with the sign removed. The queried range is the month window when no
  transaction is dated on the first day of the next month; otherwise a category that
  occurs only on that day is listed too. (When a transaction of the account carries a
  \<^verbatim>\<open>datetime.datetime\<close>, both methods raise \<^verbatim>\<open>TypeError\<close>.)
\<close>

theorem category_totals:
  "month_ok y m \<Longrightarrow>
   get_category_totals svc today (Some y) (Some m) =
     (if plain_dates (transactions (account svc))
      then Inr (map (\<lambda>k. (k, net_total (queried svc y m) k))
                  (first_occurrences (map category (queried svc y m))))
      else Inl cannot_compare)
   \<and> distinct (first_occurrences (map category (queried svc y m)))
   \<and> get_category_spending svc today (Some y) (Some m) =
     (if plain_dates (transactions (account svc))
      then Inr (map (\<lambda>k. (k, - net_total (queried svc y m) k))
                  (filter (\<lambda>k. net_total (queried svc y m) k < 0)
                     (first_occurrences (map category (queried svc y m)))))
      else Inl cannot_compare)
   \<and> ((\<forall>t \<in> set (transactions (account svc)). date_part (date t) \<noteq> next_month_start y m) \<longrightarrow>
        queried svc y m =
          filter (\<lambda>t. in_month_window y m (date_part (date t))) (transactions (account svc)))"
proof -
  assume ok: "month_ok y m"
  have sp: "map (\<lambda>(k, v). (k, \<bar>v\<bar>)) (filter (\<lambda>(k, v). v < 0) (map (\<lambda>k. (k, f k)) ks)) =
            map (\<lambda>k. (k, - f k)) (filter (\<lambda>k. f k < 0) ks)" for f :: "string \<Rightarrow> real" and ks
    by (induction ks) auto
  have q: "(\<forall>t \<in> set (transactions (account svc)). date_part (date t) \<noteq> next_month_start y m) \<longrightarrow>
        queried svc y m =
          filter (\<lambda>t. in_month_window y m (date_part (date t))) (transactions (account svc))"
    by (auto simp: queried_eq intro: filter_cong)
  show ?thesis
    using q
    by (simp add: get_category_totals_def get_category_spending_def
        monthly_transactions_queried[OF ok] totals_loop_table sp distinct_first_occurrences)
qed

theorem category_totals_witness:
  "get_category_totals \<lparr>account = \<lparr>transactions = [late_gift], next_id = 2\<rparr>, budget = None\<rparr>
     oct_1 (Some 2023) (Some 10) = Inr [(''Gifts'', - 50)]
   \<and> get_category_spending \<lparr>account = \<lparr>transactions = [late_gift], next_id = 2\<rparr>, budget = None\<rparr>
     oct_1 (Some 2023) (Some 10) = Inr [(''Gifts'', 50)]
   \<and> filter (\<lambda>t. in_month_window 2023 10 (date_part (date t))) [late_gift] = []"
  using category_totals[of 2023 10
      "\<lparr>account = \<lparr>transactions = [late_gift], next_id = 2\<rparr>, budget = None\<rparr>" oct_1]
  by (simp add: month_ok_def queried_def in_queried_range_def in_month_window_def date_le_def
      date_less_def month_start_def next_month_start_def late_gift_def nov_1_def
      first_occurrences_def net_total_def plain_dates_def)

text \<open>
  Claim C2 says that the amount spent is 0 for a category whose net total of the
  current month is positive. In the code it is not: without a budget
  \<^verbatim>\<open>get_budget_status\<close> returns \<^verbatim>\<open>None\<close>; with a budget it returns the stored limit
  (0 if none), as spent the absolute value of the net total of the category over the
  queried range of the current month, whatever the sign of the total, and as remaining
  the limit minus that value. A category with a positive net total is therefore reported
  as spent. (When a transaction of the account carries a \<^verbatim>\<open>datetime.datetime\<close>, the
  method raises \<^verbatim>\<open>TypeError\<close>.)
\<close>

theorem budget_status:
  "(budget svc = None \<longrightarrow> get_budget_status svc today c = Inr None)
   \<and> (\<forall>b. budget svc = Some b \<and> month_ok (year today) (month today) \<longrightarrow>
        get_budget_status svc today c =
          (if plain_dates (transactions (account svc))
           then Inr (Some \<lparr>budget_amount = get_budget b c,
                     spent = \<bar>net_total (queried svc (year today) (month today)) c\<bar>,
                     remaining = get_budget b c
                       - \<bar>net_total (queried svc (year today) (month today)) c\<bar>\<rparr>)
           else Inl cannot_compare))"
proof -
  have g: "dict_get (totals_loop [] ts) c 0 = net_total ts c" for ts
    by (auto simp: totals_loop_table dict_get_table set_first_occurrences net_total_absent)
  show ?thesis
    by (simp add: get_budget_status_def get_category_totals_def monthly_transactions_default
        monthly_transactions_queried g Let_def)
qed

theorem budget_status_witness:
  "get_budget_status
     \<lparr>account = \<lparr>transactions = [groceries, refund], next_id = 3\<rparr>,
      budget = Some \<lparr>monthly_budgets = [''Groceries'' \<mapsto> 200]\<rparr>\<rparr> oct_1 ''Groceries''
   = Inr (Some \<lparr>budget_amount = 200, spent = 30, remaining = 170\<rparr>)
   \<and> get_category_totals
     \<lparr>account = \<lparr>transactions = [groceries, refund], next_id = 3\<rparr>,
      budget = Some \<lparr>monthly_budgets = [''Groceries'' \<mapsto> 200]\<rparr>\<rparr> oct_1 None None
   = Inr [(''Groceries'', 30)]"
  using budget_status[of
     "\<lparr>account = \<lparr>transactions = [groceries, refund], next_id = 3\<rparr>,
       budget = Some \<lparr>monthly_budgets = [''Groceries'' \<mapsto> 200]\<rparr>\<rparr>" oct_1 "''Groceries''"]
  by (simp add: month_ok_def queried_def in_queried_range_def date_le_def
      month_start_def next_month_start_def groceries_def refund_def oct_1_def
      net_total_def get_budget_def get_category_totals_def monthly_transactions_def
      mk_date_def c_int_def days_in_month_def list_transactions_def plain_dates_def)

section \<open>Properties of the line parser\<close>

lemma take_takeWhile: "k \<le> length (takeWhile p s) \<Longrightarrow> list_all p (take k s)"
proof -
  assume k: "k \<le> length (takeWhile p s)"
  have "take k s = take k (takeWhile p s @ dropWhile p s)" by simp
  also have "\<dots> = take k (takeWhile p s)" using k by (simp del: takeWhile_dropWhile_id)
  finally have "set (take k s) \<subseteq> set (takeWhile p s)" by (simp add: set_take_subset)
  then show ?thesis by (auto simp: list_all_iff dest: set_takeWhileD)
qed

lemma rmatch_Rep_iff:
  "(g', s') \<in> set (rmatch (Rep p lo hi) g s) \<longleftrightarrow>
     g' = g \<and> (\<exists>k. lo \<le> k \<and> k \<le> length (takeWhile p s) \<and>
                  (case hi of None \<Rightarrow> True | Some h \<Rightarrow> k \<le> h) \<and> s' = drop k s)"
  by (cases hi) (auto simp: Let_def image_iff less_Suc_eq_le simp del: upt_Suc)

lemma rmatch_lang:
  "(g', s') \<in> set (rmatch r g s) \<Longrightarrow> \<exists>u. s = u @ s' \<and> lang r u"
proof (induction r arbitrary: g s g' s')
  case Eps
  then show ?case by simp
next
  case (Lit c)
  then show ?case by (cases s) (auto split: if_splits)
next
  case (Rep p lo hi)
  then obtain k where k: "lo \<le> k" "k \<le> length (takeWhile p s)"
      "case hi of None \<Rightarrow> True | Some h \<Rightarrow> k \<le> h" "s' = drop k s"
    unfolding rmatch_Rep_iff by blast
  have "k \<le> length s" using k(2) length_takeWhile_le[of p s] by linarith
  then have "s = take k s @ s' \<and> length (take k s) = k" using k(4) by simp
  then show ?case using k take_takeWhile[OF k(2)]
    by (intro exI[of _ "take k s"]) (auto split: option.splits)
next
  case (Seq a b)
  then obtain g1 s1 where 1: "(g1, s1) \<in> set (rmatch a g s)" and 2: "(g', s') \<in> set (rmatch b g1 s1)"
    by auto
  from Seq.IH(1)[OF 1] obtain v where v: "s = v @ s1" "lang a v" by blast
  from Seq.IH(2)[OF 2] obtain w where w: "s1 = w @ s'" "lang b w" by blast
  show ?case using v w by (intro exI[of _ "v @ w"]) auto
next
  case (Alt a b)
  then show ?case by (fastforce dest: Alt.IH)
next
  case (Opt a)
  then show ?case by (fastforce dest: Opt.IH)
next
  case (Grp n a)
  then show ?case by (fastforce dest: Grp.IH)
qed

lemma split_on_nonempty: "split_on c xs \<noteq> []"
  by (induction xs) (auto split: list.splits)

lemma split_on_none: "c \<notin> set xs \<Longrightarrow> split_on c xs = [xs]"
  by (induction xs) auto

lemma split_on_append: "c \<notin> set xs \<Longrightarrow> split_on c (xs @ c # ys) = xs # split_on c ys"
  by (induction xs) (auto split: list.splits simp: split_on_nonempty)

lemma digit_chars:
  "is_digit c \<Longrightarrow>
   c \<noteq> CHR ''/'' \<and> c \<noteq> CHR '','' \<and> c \<noteq> CHR ''-'' \<and> c \<noteq> CHR ''.'' \<and> \<not> is_space c"
  unfolding is_digit_def is_space_def by (elim rev_mp) simp

lemma digits_plain:
  "list_all is_digit u \<Longrightarrow>
   CHR ''/'' \<notin> set u \<and> CHR '','' \<notin> set u \<and> CHR ''-'' \<notin> set u \<and> CHR ''.'' \<notin> set u \<and>
   list_all (\<lambda>c. \<not> is_space c) u"
  unfolding list_all_iff using digit_chars by blast

lemma lang_seq_lit: "lang (Seq (Lit c) r) u \<longleftrightarrow> (\<exists>w. u = c # w \<and> lang r w)"
  by auto

lemma lang_seq_eps: "lang (Seq r Eps) u \<longleftrightarrow> lang r u"
  by auto

lemma lang_seq_rep:
  "lang (Seq (Rep p lo hi) r) u \<longleftrightarrow>
     (\<exists>v w. u = v @ w \<and> list_all p v \<and> lo \<le> length v \<and>
            (case hi of None \<Rightarrow> True | Some h \<Rightarrow> length v \<le> h) \<and> lang r w)"
  by auto

lemma lang_three_fields:
  "lang (seqs [digits l1 h1, Lit c, digits l2 h2, Lit c, digits l3 h3]) u \<Longrightarrow>
   \<exists>a b d. u = a @ c # b @ c # d \<and>
     list_all is_digit a \<and> l1 \<le> length a \<and> length a \<le> h1 \<and>
     list_all is_digit b \<and> l2 \<le> length b \<and> length b \<le> h2 \<and>
     list_all is_digit d \<and> l3 \<le> length d \<and> length d \<le> h3"
  by (clarsimp simp: digits_def) blast

lemma token_char_plain:
  assumes "token_char c"
  shows "c \<noteq> CHR '','' \<and> \<not> is_space c"
proof -
  from assms consider "is_digit c" | "c = CHR ''-''" | "c = CHR ''/''" | "c = CHR ''.''"
    unfolding token_char_def by blast
  then show ?thesis
  proof cases
    case 1
    then show ?thesis using digit_chars by blast
  qed (simp_all add: is_space_def)
qed

lemma space_not_comma: "is_space c \<Longrightarrow> c \<noteq> CHR '',''"
  unfolding is_space_def by (rule notI) simp

lemma plain_text:
  "list_all token_char u \<Longrightarrow> CHR '','' \<notin> set u \<and> list_all (\<lambda>c. \<not> is_space c) u"
  unfolding list_all_iff using token_char_plain by blast

lemma space_text: "list_all is_space u \<Longrightarrow> CHR '','' \<notin> set u"
  unfolding list_all_iff using space_not_comma by blast

lemma strip_padded:
  assumes "list_all is_space w0" "list_all is_space w1" "x \<noteq> []"
    "list_all (\<lambda>c. \<not> is_space c) x"
  shows "strip (w0 @ x @ w1) = x"
proof -
  obtain h t where x: "x = h # t" using assms(3) by (cases x) auto
  obtain l i where xr: "rev x = l # i" using assms(3) by (cases "rev x") auto
  have h: "\<not> is_space h" using assms(4) x by simp
  have "l \<in> set x" using xr by (metis list.set_intros(1) set_rev)
  then have l: "\<not> is_space l" using assms(4) by (simp add: list_all_iff)
  have "dropWhile is_space (w0 @ x @ w1) = dropWhile is_space (x @ w1)"
    by (rule dropWhile_append2) (use assms(1) in \<open>simp add: list_all_iff\<close>)
  then have 1: "dropWhile is_space (w0 @ x @ w1) = x @ w1"
    using h x by simp
  have "dropWhile is_space (rev w1 @ rev x) = dropWhile is_space (rev x)"
    by (rule dropWhile_append2) (use assms(2) in \<open>simp add: list_all_iff\<close>)
  then have 2: "dropWhile is_space (rev (x @ w1)) = rev x"
    using l xr by simp
  show ?thesis by (simp only: strip_def 1 2 rev_rev_ident)
qed

lemma lang_date_pattern:
  assumes "lang date_pattern u"
  shows "(iso_shape u \<or> us_shape u) \<and> u \<noteq> [] \<and> list_all token_char u"
proof -
  from assms consider
    (iso) "lang (seqs [digits 4 4, Lit (CHR ''-''), digits 2 2, Lit (CHR ''-''), digits 2 2]) u"
  | (us) "lang (seqs [digits 1 2, Lit (CHR ''/''), digits 1 2, Lit (CHR ''/''), digits 4 4]) u"
    unfolding date_pattern_def lang.simps(5) by blast
  then show ?thesis
  proof cases
    case iso
    from lang_three_fields[OF iso] obtain a b c where
      "u = a @ CHR ''-'' # b @ CHR ''-'' # c"
      "list_all is_digit a" "length a = 4" "list_all is_digit b" "length b = 2"
      "list_all is_digit c" "length c = 2"
      by auto
    then show ?thesis
      by (auto simp: iso_shape_def nth_append list_all_iff token_char_def)
  next
    case us
    from lang_three_fields[OF us] obtain a b c where f:
      "u = a @ CHR ''/'' # b @ CHR ''/'' # c"
      "list_all is_digit a" "1 \<le> length a" "length a \<le> 2"
      "list_all is_digit b" "1 \<le> length b" "length b \<le> 2"
      "list_all is_digit c" "length c = 4"
      by auto
    have "split_on (CHR ''/'') u = [a, b, c]"
      using f(1) digits_plain[OF f(2)] digits_plain[OF f(5)] digits_plain[OF f(8)]
      by (simp add: split_on_append split_on_none)
    then have "us_shape u" using f by (simp add: us_shape_def)
    then show ?thesis using f by (auto simp: list_all_iff token_char_def)
  qed
qed

lemma lang_SeqD: "lang (Seq a b) u \<Longrightarrow> \<exists>v w. u = v @ w \<and> lang a v \<and> lang b w"
  by simp

lemma lang_amount_pattern:
  assumes "lang amount_pattern u"
  shows "amount_shape u \<and> u \<noteq> [] \<and> list_all token_char u"
proof -
  from lang_SeqD[OF assms[unfolded amount_pattern_def seqs.simps]]
  obtain sg r1 where 1: "u = sg @ r1" "lang (Opt (Lit (CHR ''-''))) sg"
      "lang (Seq (Rep is_digit 1 None) (Seq (Opt (Seq (Lit (CHR ''.'')) (Seq (Rep is_digit 1 None) Eps))) Eps)) r1"
    by blast
  from 1(2) have sg: "sg = ''-'' \<or> sg = []" by simp
  from lang_SeqD[OF 1(3)] obtain w f where 2: "r1 = w @ f" "lang (Rep is_digit 1 None) w"
      "lang (Seq (Opt (Seq (Lit (CHR ''.'')) (Seq (Rep is_digit 1 None) Eps))) Eps) f"
    by blast
  from 2(2) have w: "list_all is_digit w" "1 \<le> length w" by simp_all
  from 2(3) have f: "f = [] \<or> (\<exists>d. f = CHR ''.'' # d \<and> list_all is_digit d \<and> 1 \<le> length d)"
    by (auto simp: lang_seq_lit)
  obtain x w' where wx: "w = x # w'" using w(2) by (cases w) auto
  have x: "is_digit x" using w(1) wx by simp
  then have xm: "x \<noteq> CHR ''-''" using digit_chars by blast
  have body: "(if take 1 u = ''-'' then drop 1 u else u) = w @ f"
    using 1(1) sg 2(1) wx xm by auto
  have nd: "\<not> is_digit (CHR ''.'')" by (simp add: is_digit_def)
  have tw: "takeWhile is_digit (w @ f) = w \<and> dropWhile is_digit (w @ f) = f"
    using w(1) f nd by (auto simp: list_all_iff takeWhile_append2 dropWhile_append2)
  have "amount_shape u"
    unfolding amount_shape_def body Let_def using tw wx f by auto
  moreover have "list_all token_char u"
    using 1(1) sg 2(1) w(1) f by (auto simp: list_all_iff token_char_def)
  moreover have "u \<noteq> []" using 1(1) 2(1) wx by simp
  ultimately show ?thesis by simp
qed

lemma lang_spaces: "lang spaces w \<longleftrightarrow> list_all is_space w"
  by (simp add: spaces_def)

lemma tail_fields:
  assumes "lang tail_pattern r2" "list_all is_space w0" "ds \<noteq> []"
    "CHR '','' \<notin> set ds" "list_all (\<lambda>c. \<not> is_space c) ds"
  shows "field 0 (w0 @ ds @ r2 @ s') = ds \<and> amount_shape (field 1 (w0 @ ds @ r2 @ s'))"
proof -
  note r2 = assms(1)[unfolded tail_pattern_def seqs.simps]
  from lang_SeqD[OF r2] obtain w1 r3 where c: "r2 = w1 @ r3" "lang spaces w1"
    and r3: "lang (Seq (Lit (CHR '','')) (Seq spaces
      (Seq (Grp GAmount amount_pattern) (Seq spaces (Seq (Lit (CHR '','')) (Seq spaces
      (Seq (Grp GCategory (Rep (\<lambda>c. c \<noteq> CHR '','') 1 None)) (Seq spaces
      (Seq (Opt (Seq (Lit (CHR '','')) (Seq spaces
         (Seq (Grp GDescription (Rep (\<lambda>c. c \<noteq> CHR 0x0A) 0 None)) Eps)))) Eps))))))))) r3"
    by blast
  from r3[unfolded lang_seq_lit] obtain r4 where d: "r3 = CHR '','' # r4"
    and r4: "lang (Seq spaces
      (Seq (Grp GAmount amount_pattern) (Seq spaces (Seq (Lit (CHR '','')) (Seq spaces
      (Seq (Grp GCategory (Rep (\<lambda>c. c \<noteq> CHR '','') 1 None)) (Seq spaces
      (Seq (Opt (Seq (Lit (CHR '','')) (Seq spaces
         (Seq (Grp GDescription (Rep (\<lambda>c. c \<noteq> CHR 0x0A) 0 None)) Eps)))) Eps)))))))) r4"
    by blast
  from lang_SeqD[OF r4] obtain w2 r5 where e: "r4 = w2 @ r5" "lang spaces w2"
    and r5: "lang (Seq (Grp GAmount amount_pattern) (Seq spaces (Seq (Lit (CHR '','')) (Seq spaces
      (Seq (Grp GCategory (Rep (\<lambda>c. c \<noteq> CHR '','') 1 None)) (Seq spaces
      (Seq (Opt (Seq (Lit (CHR '','')) (Seq spaces
         (Seq (Grp GDescription (Rep (\<lambda>c. c \<noteq> CHR 0x0A) 0 None)) Eps)))) Eps))))))) r5"
    by blast
  from lang_SeqD[OF r5] obtain as r6 where f: "r5 = as @ r6" "lang (Grp GAmount amount_pattern) as"
    and r6: "lang (Seq spaces (Seq (Lit (CHR '','')) (Seq spaces
      (Seq (Grp GCategory (Rep (\<lambda>c. c \<noteq> CHR '','') 1 None)) (Seq spaces
      (Seq (Opt (Seq (Lit (CHR '','')) (Seq spaces
         (Seq (Grp GDescription (Rep (\<lambda>c. c \<noteq> CHR 0x0A) 0 None)) Eps)))) Eps)))))) r6"
    by blast
  from lang_SeqD[OF r6] obtain w3 r7 where h: "r6 = w3 @ r7" "lang spaces w3"
    and r7: "lang (Seq (Lit (CHR '','')) (Seq spaces
      (Seq (Grp GCategory (Rep (\<lambda>c. c \<noteq> CHR '','') 1 None)) (Seq spaces
      (Seq (Opt (Seq (Lit (CHR '','')) (Seq spaces
         (Seq (Grp GDescription (Rep (\<lambda>c. c \<noteq> CHR 0x0A) 0 None)) Eps)))) Eps))))) r7"
    by blast
  from r7[unfolded lang_seq_lit] obtain r8 where i: "r7 = CHR '','' # r8" by blast
  note ap = lang_amount_pattern[OF f(2)[unfolded lang.simps(7)]]
  have sp: "list_all is_space w0" "list_all is_space w1" "list_all is_space w2" "list_all is_space w3"
    using assms(2) c(2) e(2) h(2) by (simp_all add: lang_spaces)
  have pa: "CHR '','' \<notin> set as \<and> list_all (\<lambda>c. \<not> is_space c) as"
    using ap plain_text by blast
  have nc0: "CHR '','' \<notin> set (w0 @ ds @ w1)"
    using space_text[OF sp(1)] space_text[OF sp(2)] assms(4) by simp
  have nc1: "CHR '','' \<notin> set (w2 @ as @ w3)"
    using space_text[OF sp(3)] space_text[OF sp(4)] pa by simp
  have line: "w0 @ ds @ r2 @ s' =
      (w0 @ ds @ w1) @ CHR '','' # (w2 @ as @ w3) @ CHR '','' # (r8 @ s')"
    using c(1) d e(1) f(1) h(1) i by simp
  have sl: "split_on (CHR '','') (w0 @ ds @ r2 @ s') =
      (w0 @ ds @ w1) # (w2 @ as @ w3) # split_on (CHR '','') (r8 @ s')"
    unfolding line by (simp only: split_on_append[OF nc0] split_on_append[OF nc1])
  have nsa: "list_all (\<lambda>c. \<not> is_space c) as" using pa by simp
  have f0: "field 0 (w0 @ ds @ r2 @ s') = ds"
    using assms(3) by (simp add: field_def sl strip_padded[OF sp(1,2) _ assms(5)])
  have f1: "field 1 (w0 @ ds @ r2 @ s') = as"
    using ap by (simp add: field_def sl strip_padded[OF sp(3,4) _ nsa])
  show ?thesis using ap f0 f1 by simp
qed

lemma rmatch_groups:
  "(g', s') \<in> set (rmatch r g s) \<Longrightarrow> \<exists>new. g' = new @ g \<and> fst ` set new \<subseteq> group_names r"
proof (induction r arbitrary: g s g' s')
  case Eps
  then show ?case by simp
next
  case (Lit c)
  then show ?case by (cases s) (auto split: if_splits)
next
  case (Rep p lo hi)
  then have "g' = g" unfolding rmatch_Rep_iff by blast
  then show ?case by simp
next
  case (Seq a b)
  then obtain g1 s1 where 1: "(g1, s1) \<in> set (rmatch a g s)" and 2: "(g', s') \<in> set (rmatch b g1 s1)"
    by auto
  from Seq.IH(1)[OF 1] obtain n1 where n1: "g1 = n1 @ g" "fst ` set n1 \<subseteq> group_names a" by blast
  from Seq.IH(2)[OF 2] obtain n2 where n2: "g' = n2 @ g1" "fst ` set n2 \<subseteq> group_names b" by blast
  show ?case using n1 n2 by (intro exI[of _ "n2 @ n1"]) auto
next
  case (Alt a b)
  then consider "(g', s') \<in> set (rmatch a g s)" | "(g', s') \<in> set (rmatch b g s)" by auto
  then show ?case
  proof cases
    case 1
    from Alt.IH(1)[OF 1] show ?thesis by auto
  next
    case 2
    from Alt.IH(2)[OF 2] show ?thesis by auto
  qed
next
  case (Opt a)
  then consider "(g', s') \<in> set (rmatch a g s)" | "g' = g" by auto
  then show ?case
  proof cases
    case 1
    from Opt.IH[OF 1] show ?thesis by auto
  next
    case 2
    then show ?thesis by simp
  qed
next
  case (Grp n a)
  then obtain g1 where 1: "(g1, s') \<in> set (rmatch a g s)"
    and g': "g' = (n, take (length s - length s') s) # g1"
    by auto
  from Grp.IH[OF 1] obtain new where new: "g1 = new @ g" "fst ` set new \<subseteq> group_names a" by blast
  show ?case using g' new
    by (intro exI[of _ "(n, take (length s - length s') s) # new"]) auto
qed

lemma rmatch_SeqD:
  "(g', s') \<in> set (rmatch (Seq a b) g s) \<Longrightarrow>
   \<exists>g1 s1. (g1, s1) \<in> set (rmatch a g s) \<and> (g', s') \<in> set (rmatch b g1 s1)"
  by auto

lemma rmatch_GrpD:
  "(g', s') \<in> set (rmatch (Grp n a) g s) \<Longrightarrow>
   \<exists>g1. (g1, s') \<in> set (rmatch a g s) \<and> g' = (n, take (length s - length s') s) # g1"
  by auto

lemma csv_pattern_split:
  "csv_pattern = Seq spaces (Seq (Grp GDate date_pattern) tail_pattern)"
  by (simp add: csv_pattern_def tail_pattern_def)

lemma group_names_parts:
  "group_names spaces = {} \<and> group_names date_pattern = {}
   \<and> GDate \<notin> group_names tail_pattern"
  by (simp add: spaces_def date_pattern_def digits_def tail_pattern_def amount_pattern_def)

lemma csv_match_parts:
  assumes "(g', s') \<in> set (rmatch csv_pattern [] line)"
  shows "\<exists>w0 ds r2. line = w0 @ ds @ r2 @ s' \<and> lang spaces w0 \<and> lang date_pattern ds \<and>
           lang tail_pattern r2 \<and> map_of g' GDate = Some ds"
proof -
  from rmatch_SeqD[OF assms[unfolded csv_pattern_split]] obtain g1 s1 where
    1: "(g1, s1) \<in> set (rmatch spaces [] line)"
    and r: "(g', s') \<in> set (rmatch (Seq (Grp GDate date_pattern) tail_pattern) g1 s1)"
    by blast
  from rmatch_SeqD[OF r] obtain g2 s2 where
    2: "(g2, s2) \<in> set (rmatch (Grp GDate date_pattern) g1 s1)"
    and 3: "(g', s') \<in> set (rmatch tail_pattern g2 s2)"
    by blast
  from rmatch_GrpD[OF 2] obtain g3 where
    4: "(g3, s2) \<in> set (rmatch date_pattern g1 s1)"
    and g2: "g2 = (GDate, take (length s1 - length s2) s1) # g3"
    by blast
  from rmatch_lang[OF 1] obtain w0 where w0: "line = w0 @ s1" "lang spaces w0" by blast
  from rmatch_lang[OF 4] obtain ds where ds: "s1 = ds @ s2" "lang date_pattern ds" by blast
  from rmatch_lang[OF 3] obtain r2 where r2: "s2 = r2 @ s'" "lang tail_pattern r2" by blast
  from rmatch_groups[OF 3] obtain new where
    new: "g' = new @ g2" "fst ` set new \<subseteq> group_names tail_pattern" by blast
  have "GDate \<notin> fst ` set new" using new(2) group_names_parts by blast
  then have n: "map_of new GDate = None" by (simp add: map_of_eq_None_iff)
  have t: "take (length s1 - length s2) s1 = ds" using ds(1) by simp
  have "map_of g' GDate = Some ds"
    unfolding new(1) g2 t by (simp add: map_add_def n)
  moreover have "line = w0 @ ds @ r2 @ s'" using w0(1) ds(1) r2(1) by simp
  ultimately show ?thesis using w0(2) ds(2) r2(2) by blast
qed

lemma csv_match_fields:
  assumes "(g', s') \<in> set (rmatch csv_pattern [] line)"
  shows "(iso_shape (field 0 line) \<or> us_shape (field 0 line)) \<and> amount_shape (field 1 line)
         \<and> map_of g' GDate = Some (field 0 line)"
proof -
  from csv_match_parts[OF assms] obtain w0 ds r2 where
    p: "line = w0 @ ds @ r2 @ s'" "lang spaces w0" "lang date_pattern ds" "lang tail_pattern r2"
      "map_of g' GDate = Some ds"
    by blast
  note dp = lang_date_pattern[OF p(3)]
  have pd: "CHR '','' \<notin> set ds \<and> list_all (\<lambda>c. \<not> is_space c) ds"
    using dp plain_text by blast
  have sp: "list_all is_space w0" using p(2) by (simp add: lang_spaces)
  have "field 0 line = ds \<and> amount_shape (field 1 line)"
    unfolding p(1) using tail_fields[OF p(4) sp _ _ _, of ds s'] dp pd by blast
  then show ?thesis using dp p(5) by simp
qed

lemma not_digit_sep:
  "\<not> is_digit (CHR ''-'')" "\<not> is_digit (CHR ''/'')" "\<not> is_digit (CHR '','')"
  by (simp_all add: is_digit_def)

lemma takeWhile_digits:
  "list_all is_digit u \<Longrightarrow> \<not> is_digit c \<Longrightarrow> takeWhile is_digit (u @ c # r) = u"
  by (induction u) auto

lemma rmatch_digits_exact:
  assumes "list_all is_digit u" "length u = n" "\<not> is_digit c"
  shows "rmatch (digits n n) g (u @ c # r) = [(g, c # r)]"
  using assms by (simp add: digits_def takeWhile_digits)

lemma rmatch_digits_12:
  assumes "list_all is_digit u" "length u = 1 \<or> length u = 2" "\<not> is_digit c"
  shows "rmatch (Seq (digits 1 2) (Seq (Lit c) r)) g (u @ c # s) = rmatch r g s"
proof -
  from assms(2) consider x where "u = [x]" | x y where "u = [x, y]"
    by (cases u; cases "tl u"; auto)
  then show ?thesis
  proof cases
    case 1
    then show ?thesis using assms by (simp add: digits_def)
  next
    case 2
    then have "y \<noteq> c" using assms by auto
    with 2 show ?thesis using assms by (simp add: digits_def upt_rec)
  qed
qed

lemma rmatch_seq_digits_exact:
  assumes "list_all is_digit u" "length u = n" "\<not> is_digit c"
  shows "rmatch (Seq (digits n n) r) g (u @ c # s) = rmatch r g (c # s)"
  using rmatch_digits_exact[OF assms] by simp

lemma rmatch_seq_lit: "rmatch (Seq (Lit c) r) g (c # s) = rmatch r g s"
  by simp

lemma rmatch_seq_eps: "rmatch (Seq r Eps) g s = rmatch r g s"
proof -
  have "concat (map (\<lambda>p. [p]) xs) = xs" for xs :: "(groups \<times> string) list"
    by (induction xs) auto
  then show ?thesis by (simp add: split_def)
qed

lemma split_on_join:
  "split_on c s = f # fs \<Longrightarrow> s = f @ concat (map ((#) c) fs)"
proof (induction s arbitrary: f fs)
  case Nil
  then show ?case by simp
next
  case (Cons x s)
  show ?case
  proof (cases "x = c")
    case True
    with Cons.prems have "f = []" "fs = split_on c s" by auto
    moreover obtain f' fs' where s: "split_on c s = f' # fs'"
      using split_on_nonempty[of c s] by (cases "split_on c s") auto
    ultimately show ?thesis using Cons.IH[OF s] True by simp
  next
    case False
    obtain f' fs' where s: "split_on c s = f' # fs'"
      using split_on_nonempty[of c s] by (cases "split_on c s") auto
    with Cons.prems False have "f = x # f'" "fs = fs'" by auto
    then show ?thesis using Cons.IH[OF s] by simp
  qed
qed

lemma iso_shape_parts:
  assumes "iso_shape ds"
  obtains a b c where "ds = a @ CHR ''-'' # b @ CHR ''-'' # c"
    "list_all is_digit a" "length a = 4" "list_all is_digit b" "length b = 2"
    "list_all is_digit c" "length c = 2"
proof -
  let ?a = "take 4 ds" and ?b = "take 2 (drop 5 ds)" and ?c = "drop 8 ds"
  have l: "length ds = 10" using assms by (simp add: iso_shape_def)
  have 1: "ds = take 4 ds @ ds ! 4 # drop 5 ds"
    using id_take_nth_drop[of 4 ds] l by simp
  have 2: "drop 5 ds = take 2 (drop 5 ds) @ ds ! 7 # drop 8 ds"
    using id_take_nth_drop[of 2 "drop 5 ds"] l by simp
  have "ds = ?a @ CHR ''-'' # ?b @ CHR ''-'' # ?c"
    using assms 1 2 by (metis iso_shape_def)
  then show ?thesis using assms l by (intro that[of ?a ?b ?c]) (auto simp: iso_shape_def)
qed

lemma us_shape_parts:
  assumes "us_shape ds"
  obtains a b c where "ds = a @ CHR ''/'' # b @ CHR ''/'' # c"
    "list_all is_digit a" "length a = 1 \<or> length a = 2"
    "list_all is_digit b" "length b = 1 \<or> length b = 2"
    "list_all is_digit c" "length c = 4"
proof -
  from assms obtain a b c where s: "split_on (CHR ''/'') ds = [a, b, c]"
    and p: "list_all is_digit a" "1 \<le> length a" "length a \<le> 2"
      "list_all is_digit b" "1 \<le> length b" "length b \<le> 2"
      "list_all is_digit c" "length c = 4"
    unfolding us_shape_def by (auto split: list.splits)
  from split_on_join[OF s] have "ds = a @ CHR ''/'' # b @ CHR ''/'' # c" by simp
  moreover have "length a = 1 \<or> length a = 2" using p by linarith
  moreover have "length b = 1 \<or> length b = 2" using p by linarith
  ultimately show ?thesis using p by (intro that[of a b c]) auto
qed

lemma rmatch_digits_too_short:
  assumes "list_all is_digit u" "length u < n" "\<not> is_digit c"
  shows "rmatch (Seq (digits n n) r) g (u @ c # s) = []"
  using assms by (simp add: digits_def takeWhile_digits)

lemma rmatch_digits_12_too_long:
  assumes "list_all is_digit u" "length u = 4" "c \<noteq> CHR ''/''"
  shows "rmatch (Seq (digits 1 2) (Seq (Lit (CHR ''/'')) r)) g (u @ c # s) = []"
proof -
  from assms(2) obtain w x y z where u: "u = [w, x, y, z]"
    by (cases u; cases "tl u"; cases "tl (tl u)"; cases "tl (tl (tl u))"; auto)
  have "x \<noteq> CHR ''/''" "y \<noteq> CHR ''/''" using assms(1) u digit_chars by auto
  then show ?thesis using assms(1) u
    by (cases "is_digit c") (simp_all add: digits_def upt_rec)
qed

lemma rmatch_date_pattern:
  assumes "iso_shape ds \<or> us_shape ds"
  shows "rmatch date_pattern g (ds @ CHR '','' # s) = [(g, CHR '','' # s)]"
  using assms
proof
  assume "iso_shape ds"
  then obtain a b c where p: "ds = a @ CHR ''-'' # b @ CHR ''-'' # c"
    "list_all is_digit a" "length a = 4" "list_all is_digit b" "length b = 2"
    "list_all is_digit c" "length c = 2"
    by (rule iso_shape_parts)
  have 1: "rmatch (seqs [digits 4 4, Lit (CHR ''-''), digits 2 2, Lit (CHR ''-''), digits 2 2]) g
             (ds @ CHR '','' # s) = [(g, CHR '','' # s)]"
    unfolding p(1) seqs.simps append_assoc append_Cons
    by (simp only: rmatch_seq_digits_exact[OF p(2,3) not_digit_sep(1)] rmatch_seq_lit
        rmatch_seq_digits_exact[OF p(4,5) not_digit_sep(1)] rmatch_seq_eps
        rmatch_digits_exact[OF p(6,7) not_digit_sep(3)])
  have 2: "rmatch (seqs [digits 1 2, Lit (CHR ''/''), digits 1 2, Lit (CHR ''/''), digits 4 4]) g
             (ds @ CHR '','' # s) = []"
    unfolding p(1) seqs.simps append_assoc append_Cons
    by (rule rmatch_digits_12_too_long[OF p(2,3)]) simp
  show ?thesis by (simp only: date_pattern_def rmatch.simps 1 2 append_Nil2)
next
  assume "us_shape ds"
  then obtain a b c where p: "ds = a @ CHR ''/'' # b @ CHR ''/'' # c"
    "list_all is_digit a" "length a = 1 \<or> length a = 2"
    "list_all is_digit b" "length b = 1 \<or> length b = 2"
    "list_all is_digit c" "length c = 4"
    by (rule us_shape_parts)
  have "length a < 4" using p(3) by auto
  then have 1: "rmatch (seqs [digits 4 4, Lit (CHR ''-''), digits 2 2, Lit (CHR ''-''), digits 2 2]) g
             (ds @ CHR '','' # s) = []"
    unfolding p(1) seqs.simps append_assoc append_Cons
    by (rule rmatch_digits_too_short[OF p(2) _ not_digit_sep(2)])
  have 2: "rmatch (seqs [digits 1 2, Lit (CHR ''/''), digits 1 2, Lit (CHR ''/''), digits 4 4]) g
             (ds @ CHR '','' # s) = [(g, CHR '','' # s)]"
    unfolding p(1) seqs.simps append_assoc append_Cons
    by (simp only: rmatch_digits_12[OF p(2,3) not_digit_sep(2)]
        rmatch_digits_12[OF p(4,5) not_digit_sep(2)] rmatch_seq_eps
        rmatch_digits_exact[OF p(6,7) not_digit_sep(3)])
  show ?thesis by (simp only: date_pattern_def rmatch.simps 1 2 append_Nil)
qed

lemma tail_eval:
  "take 1 (rmatch tail_pattern g '',-50.00,Groceries'') =
     [((GCategory, ''Groceries'') # (GAmount, ''-50.00'') # g, [])]"
  by code_simp

lemma shape_head:
  assumes "iso_shape ds \<or> us_shape ds"
  obtains x r where "ds = x # r" "is_digit x"
proof -
  from assms obtain a r where "ds = a @ r" "list_all is_digit a" "1 \<le> length a"
    by (elim disjE iso_shape_parts us_shape_parts) auto
  then show ?thesis by (cases a) (auto intro: that)
qed

lemma rmatch_spaces_none: "\<not> is_space x \<Longrightarrow> rmatch spaces g (x # r) = [(g, x # r)]"
  by (simp add: spaces_def)

lemma re_match_shape:
  assumes "iso_shape ds \<or> us_shape ds"
  shows "re_match csv_pattern (ds @ '',-50.00,Groceries'') =
         Some [(GCategory, ''Groceries''), (GAmount, ''-50.00''), (GDate, ds)]"
proof -
  from assms obtain x r where x: "ds = x # r" "is_digit x" by (rule shape_head)
  have ns: "\<not> is_space x" using x(2) digit_chars by blast
  have 1: "rmatch spaces [] (ds @ '',-50.00,Groceries'') = [([], ds @ '',-50.00,Groceries'')]"
    unfolding x(1) append_Cons by (rule rmatch_spaces_none[OF ns])
  have 2: "rmatch (Grp GDate date_pattern) [] (ds @ CHR '','' # ''-50.00,Groceries'') =
           [([(GDate, ds)], CHR '','' # ''-50.00,Groceries'')]"
    by (simp add: rmatch_date_pattern[OF assms])
  have 3: "rmatch csv_pattern [] (ds @ '',-50.00,Groceries'') =
           rmatch tail_pattern [(GDate, ds)] '',-50.00,Groceries''"
    using 2 by (simp add: csv_pattern_split 1)
  from tail_eval[of "[(GDate, ds)]"] obtain rest where
    "rmatch tail_pattern [(GDate, ds)] '',-50.00,Groceries'' =
     ([(GCategory, ''Groceries''), (GAmount, ''-50.00''), (GDate, ds)], []) # rest"
    by (cases "rmatch tail_pattern [(GDate, ds)] '',-50.00,Groceries''") auto
  then show ?thesis by (simp add: re_match_def 3)
qed

lemma example_conversions:
  "float_of_str ''-50.00'' = - 50 \<and> strip ''Groceries'' = ''Groceries''"
  by code_simp

lemma shape_no_slash: "iso_shape ds \<Longrightarrow> CHR ''/'' \<notin> set ds"
  by (erule iso_shape_parts) (use digits_plain in auto)

lemma parse_shape:
  assumes "iso_shape ds \<or> us_shape ds"
  shows "parse_csv_line (ds @ '',-50.00,Groceries'') =
         (case strptime ds (format_of ds) of
            Inl e \<Rightarrow> Inl e
          | Inr d \<Rightarrow> Inr (d, - 50, ''Groceries'', []))"
  by (simp add: parse_csv_line_def re_match_shape[OF assms] group_text_def example_conversions
      format_of_def split: sum.splits)

lemma no_match_fields:
  assumes "\<not> (iso_shape (field 0 line) \<or> us_shape (field 0 line)) \<or> \<not> amount_shape (field 1 line)"
  shows "parse_csv_line line = Inl (ValueError (''Line does not match expected format: '' @ line))"
proof -
  have "rmatch csv_pattern [] line = []"
  proof (cases "rmatch csv_pattern [] line")
    case Nil
    then show ?thesis .
  next
    case (Cons p ps)
    then have "(fst p, snd p) \<in> set (rmatch csv_pattern [] line)" by simp
    from csv_match_fields[OF this] assms show ?thesis by blast
  qed
  then show ?thesis by (simp add: parse_csv_line_def re_match_def)
qed

lemma match_date_group:
  assumes "re_match csv_pattern line = Some g"
  shows "group_text g GDate = field 0 line
         \<and> (iso_shape (field 0 line) \<or> us_shape (field 0 line)) \<and> amount_shape (field 1 line)"
proof -
  from assms obtain rest others where "rmatch csv_pattern [] line = (g, rest) # others"
    by (auto simp: re_match_def split: list.splits)
  then have "(g, rest) \<in> set (rmatch csv_pattern [] line)" by simp
  from csv_match_fields[OF this] show ?thesis by (simp add: group_text_def)
qed

lemma parse_matched:
  assumes "re_match csv_pattern line = Some g"
  shows "parse_csv_line line =
         (case strptime (field 0 line) (format_of (field 0 line)) of
            Inl e \<Rightarrow> Inl e
          | Inr d \<Rightarrow>
              Inr (d, float_of_str (group_text g GAmount), strip (group_text g GCategory),
                   group_text g GDescription))"
  using match_date_group[OF assms]
  by (simp add: parse_csv_line_def assms format_of_def Let_def)

lemma mk_date_valid: "mk_date y m d = Inr v \<Longrightarrow> valid_date v"
  by (auto simp: valid_date_def mk_date_def split: option.splits if_splits)

lemma strptime_valid: "strptime s fmt = Inr v \<Longrightarrow> valid_date v"
  by (auto simp: strptime_def Let_def dest: mk_date_valid
      split: date_format.splits list.splits if_splits)

lemma parse_accepted:
  assumes "parse_csv_line line = Inr (d, a, c, ds)"
  shows "(iso_shape (field 0 line) \<or> us_shape (field 0 line))
         \<and> strptime (field 0 line) (format_of (field 0 line)) = Inr d \<and> valid_date d"
proof -
  from assms obtain g where g: "re_match csv_pattern line = Some g"
    by (cases "re_match csv_pattern line") (simp_all add: parse_csv_line_def)
  have s: "strptime (field 0 line) (format_of (field 0 line)) = Inr d"
    using assms unfolding parse_matched[OF g] by (simp split: sum.splits)
  show ?thesis using match_date_group[OF g] s strptime_valid[OF s] by simp
qed

lemma parse_rejected:
  assumes "strptime (field 0 line) (format_of (field 0 line)) = Inl e"
  shows "parse_csv_line line = Inl e
         \<or> parse_csv_line line = Inl (ValueError (''Line does not match expected format: '' @ line))"
proof (cases "re_match csv_pattern line")
  case None
  then show ?thesis by (simp add: parse_csv_line_def)
next
  case (Some g)
  show ?thesis unfolding parse_matched[OF Some] using assms by simp
qed

subsection \<open>The texts of the dates of the calendar\<close>

lemma digit_nth: "k < 10 \<Longrightarrow> is_digit (''0123456789'' ! k)"
proof -
  assume "k < 10"
  then have "k \<in> {0, 1, 2, 3, 4, 5, 6, 7, 8, 9}" by auto
  then show ?thesis by (auto simp: is_digit_def)
qed

lemma digits_str_nat: "list_all is_digit (str_nat n) \<and> str_nat n \<noteq> []"
proof (induction n rule: str_nat.induct)
  case (1 n)
  show ?case
  proof (cases "n < 10")
    case True
    then show ?thesis by (subst (1 2) str_nat.simps) (simp add: digit_nth)
  next
    case False
    then show ?thesis using 1 by (subst (1 2) str_nat.simps) (simp add: digit_nth)
  qed
qed

lemma digits_zero_pad: "list_all is_digit (zero_pad w (str_nat n))"
proof -
  have "is_digit (CHR ''0'')" by (simp add: is_digit_def)
  then show ?thesis using digits_str_nat[of n] by (auto simp: zero_pad_def list_all_iff)
qed

lemma length_zero_pad_12:
  assumes "n < 100" "w = 1 \<or> w = 2"
  shows "length (zero_pad w (str_nat n)) = 1 \<or> length (zero_pad w (str_nat n)) = 2"
proof -
  have "n < 10 ^ 2" using assms(1) by simp
  then have "length (str_nat n) \<le> 2" by (intro length_str_nat) simp_all
  moreover have "1 \<le> length (str_nat n)" using digits_str_nat[of n] by (cases "str_nat n") auto
  ultimately show ?thesis using assms(2) by (auto simp: zero_pad_def)
qed

lemma split_three:
  assumes "c \<notin> set a" "c \<notin> set b" "c \<notin> set d"
  shows "split_on c (a @ c # b @ c # d) = [a, b, d]"
  by (simp add: split_on_append[OF assms(1)] split_on_append[OF assms(2)] split_on_none[OF assms(3)])

lemma small_field_zero_pad:
  assumes "1 \<le> n" "n \<le> hi" "n < 100" "w = 1 \<or> w = 2"
  shows "small_field hi (zero_pad w (str_nat n))"
  using length_zero_pad_12[OF assms(3,4)] assms(1,2)
  by (auto simp: small_field_def digits_zero_pad nat_of_digits_zero_pad)

lemma strptime_isoformat:
  assumes "valid_date v"
  shows "strptime (isoformat v) YMD = Inr v \<and> iso_shape (isoformat v)
         \<and> CHR ''/'' \<notin> set (isoformat v)"
proof -
  note b = valid_dateD[OF assms] and p = isoformat_parts[OF assms]
  let ?y = "zero_pad 4 (str_nat (nat (year v)))"
  let ?m = "zero_pad 2 (str_nat (nat (month v)))"
  let ?d = "zero_pad 2 (str_nat (nat (day v)))"
  have iso: "isoformat v = ?y @ CHR ''-'' # ?m @ CHR ''-'' # ?d" using p(1) by simp
  have dg: "list_all is_digit ?y" "list_all is_digit ?m" "list_all is_digit ?d"
    by (rule digits_zero_pad)+
  have sp: "split_on (CHR ''-'') (isoformat v) = [?y, ?m, ?d]"
    unfolding iso using digits_plain[OF dg(1)] digits_plain[OF dg(2)] digits_plain[OF dg(3)]
    by (intro split_three) simp_all
  have yf: "year_field ?y" using p(2) dg(1) by (simp add: year_field_def)
  have mf: "small_field 12 ?m" using b by (intro small_field_zero_pad) auto
  have df: "small_field 31 ?d" using b by (intro small_field_zero_pad) auto
  have mk: "mk_date (int (nat_of_digits ?y)) (int (nat_of_digits ?m)) (int (nat_of_digits ?d)) = Inr v"
    using assms b by (simp add: nat_of_digits_zero_pad valid_date_def)
  have 1: "strptime (isoformat v) YMD = Inr v"
    by (simp add: strptime_def sp yf mf df mk)
  have 2: "iso_shape (isoformat v)"
    unfolding iso using p(2-4) dg by (simp add: iso_shape_def nth_append)
  have 3: "CHR ''/'' \<notin> set (isoformat v)"
    unfolding iso using digits_plain[OF dg(1)] digits_plain[OF dg(2)] digits_plain[OF dg(3)]
    by simp
  from 1 2 3 show ?thesis by simp
qed

lemma strptime_us_text:
  assumes "valid_date v" "wm = 1 \<or> wm = 2" "wd = 1 \<or> wd = 2"
  shows "strptime (us_text wm wd v) MDY = Inr v \<and> us_shape (us_text wm wd v)
         \<and> CHR ''/'' \<in> set (us_text wm wd v)"
proof -
  note b = valid_dateD[OF assms(1)] and p = isoformat_parts[OF assms(1)]
  let ?y = "zero_pad 4 (str_nat (nat (year v)))"
  let ?m = "zero_pad wm (str_nat (nat (month v)))"
  let ?d = "zero_pad wd (str_nat (nat (day v)))"
  have us: "us_text wm wd v = ?m @ CHR ''/'' # ?d @ CHR ''/'' # ?y"
    using b by (simp add: us_text_def str_int_def)
  have dg: "list_all is_digit ?y" "list_all is_digit ?m" "list_all is_digit ?d"
    by (rule digits_zero_pad)+
  have sp: "split_on (CHR ''/'') (us_text wm wd v) = [?m, ?d, ?y]"
    unfolding us using digits_plain[OF dg(1)] digits_plain[OF dg(2)] digits_plain[OF dg(3)]
    by (intro split_three) simp_all
  have yf: "year_field ?y" using p(2) dg(1) by (simp add: year_field_def)
  have mf: "small_field 12 ?m" using b assms(2) by (intro small_field_zero_pad) auto
  have df: "small_field 31 ?d" using b assms(3) by (intro small_field_zero_pad) auto
  have mk: "mk_date (int (nat_of_digits ?y)) (int (nat_of_digits ?m)) (int (nat_of_digits ?d)) = Inr v"
    using assms(1) b by (simp add: nat_of_digits_zero_pad valid_date_def)
  have 1: "strptime (us_text wm wd v) MDY = Inr v"
    by (simp add: strptime_def sp yf mf df mk)
  have 2: "us_shape (us_text wm wd v)"
    using mf df yf dg by (simp add: us_shape_def sp small_field_def year_field_def)
  have 3: "CHR ''/'' \<in> set (us_text wm wd v)"
    unfolding us by simp
  from 1 2 3 show ?thesis by simp
qed

lemma parse_isoformat:
  assumes "valid_date v"
  shows "parse_csv_line (isoformat v @ '',-50.00,Groceries'') = Inr (v, - 50, ''Groceries'', [])"
  using strptime_isoformat[OF assms] parse_shape[of "isoformat v"]
  by (simp add: format_of_def)

lemma parse_us_text:
  assumes "valid_date v" "wm = 1 \<or> wm = 2" "wd = 1 \<or> wd = 2"
  shows "parse_csv_line (us_text wm wd v @ '',-50.00,Groceries'') =
         Inr (v, - 50, ''Groceries'', [])"
  using strptime_us_text[OF assms] parse_shape[of "us_text wm wd v"]
  by (simp add: format_of_def)

lemma parse_examples:
  "parse_csv_line ''2023-10-01,-50.00,Groceries,Weekly shop'' =
     Inr (\<lparr>year = 2023, month = 10, day = 1\<rparr>, - 50, ''Groceries'', ''Weekly shop'')
   \<and> parse_csv_line ''10/01/2023,-50.00,Groceries'' =
     Inr (\<lparr>year = 2023, month = 10, day = 1\<rparr>, - 50, ''Groceries'', [])"
  by code_simp

subsection \<open>The dates the parser accepts\<close>

text \<open>
  Claim C6, as stated, says that the parser accepts exactly the two shapes. It does not
  accept every text of the two shapes: 2023-02-30 has the shape \<^verbatim>\<open>YYYY-MM-DD\<close> and is
  let through by the pattern, and the conversion to a date then raises; 2023-10-45 and
  13/01/2023 are rejected by the conversion as well.
\<close>

theorem shaped_date_rejected:
  "iso_shape ''2023-02-30''
   \<and> field 0 ''2023-02-30,-50.00,Groceries'' = ''2023-02-30''
   \<and> parse_csv_line ''2023-02-30,-50.00,Groceries'' =
       Inl (ValueError ''day is out of range for month'')
   \<and> iso_shape ''2023-10-45''
   \<and> parse_csv_line ''2023-10-45,-50.00,Groceries'' =
       Inl (ValueError ''unconverted data remains: 5'')
   \<and> us_shape ''13/01/2023''
   \<and> parse_csv_line ''13/01/2023,-50.00,Groceries'' =
       Inl (ValueError (''time data '' @ [CHR 0x27] @ ''13/01/2023'' @ [CHR 0x27] @
                        '' does not match format '' @ [CHR 0x27] @ ''%m/%d/%Y'' @ [CHR 0x27]))"
  by code_simp

text \<open>
  Claim C6, amended. The parser accepts a date text exactly when it has the shape
  \<^verbatim>\<open>YYYY-MM-DD\<close> or the shape \<^verbatim>\<open>M/D/YYYY\<close> (one or two digits for month and day, four for
  the year) and names a day of the calendar: a year from 1 to 9999, a month from 1 to 12
  and a day of that month.
  \<^item> A line whose date field has neither shape fails with the error that quotes the
    line, and so does a line whose amount field is not a number (an optional minus
    sign, digits, an optional fraction).
  \<^item> For a line that the pattern matches, the date field has one of the shapes and the
    result is decided by \<^verbatim>\<open>strptime\<close> on the date field: its error, or its date together
    with the other three fields.
  \<^item> A line that is accepted has a date field of one of the shapes, and the date
    returned is the one \<^verbatim>\<open>strptime\<close> reads from it, a day of the calendar. A line whose
    date field \<^verbatim>\<open>strptime\<close> rejects is not accepted.
  \<^item> Every day of the calendar is accepted in both shapes: its ISO text, and its text
    \<^verbatim>\<open>M/D/YYYY\<close> with or without leading zeros for month and day, in front of
    \<^verbatim>\<open>,-50.00,Groceries\<close> parse to that day, the amount -50, the category and the empty
    description.
  \<^item> The two lines of the specification parse to 2023-10-01, -50, Groceries, and the
    description \<^verbatim>\<open>Weekly shop\<close> or the empty text.
\<close>

theorem parse_csv_line_dates:
  "(\<not> (iso_shape (field 0 line) \<or> us_shape (field 0 line)) \<longrightarrow>
      parse_csv_line line = Inl (ValueError (''Line does not match expected format: '' @ line)))
   \<and> (\<not> amount_shape (field 1 line) \<longrightarrow>
      parse_csv_line line = Inl (ValueError (''Line does not match expected format: '' @ line)))
   \<and> (re_match csv_pattern line = Some g \<longrightarrow>
      (iso_shape (field 0 line) \<or> us_shape (field 0 line)) \<and>
      parse_csv_line line =
        (case strptime (field 0 line) (format_of (field 0 line)) of
           Inl e \<Rightarrow> Inl e
         | Inr d \<Rightarrow>
             Inr (d, float_of_str (group_text g GAmount), strip (group_text g GCategory),
                  group_text g GDescription)))
   \<and> (parse_csv_line line = Inr (d, a, c, ds) \<longrightarrow>
      (iso_shape (field 0 line) \<or> us_shape (field 0 line)) \<and>
      strptime (field 0 line) (format_of (field 0 line)) = Inr d \<and> valid_date d)
   \<and> (strptime (field 0 line) (format_of (field 0 line)) = Inl e \<longrightarrow>
      parse_csv_line line = Inl e \<or>
      parse_csv_line line = Inl (ValueError (''Line does not match expected format: '' @ line)))
   \<and> (valid_date v \<longrightarrow>
      iso_shape (isoformat v) \<and> strptime (isoformat v) YMD = Inr v \<and>
      parse_csv_line (isoformat v @ '',-50.00,Groceries'') = Inr (v, - 50, ''Groceries'', []))
   \<and> (valid_date v \<and> (wm = 1 \<or> wm = 2) \<and> (wd = 1 \<or> wd = 2) \<longrightarrow>
      us_shape (us_text wm wd v) \<and> strptime (us_text wm wd v) MDY = Inr v \<and>
      parse_csv_line (us_text wm wd v @ '',-50.00,Groceries'') = Inr (v, - 50, ''Groceries'', []))
   \<and> parse_csv_line ''2023-10-01,-50.00,Groceries,Weekly shop'' =
       Inr (\<lparr>year = 2023, month = 10, day = 1\<rparr>, - 50, ''Groceries'', ''Weekly shop'')
   \<and> parse_csv_line ''10/01/2023,-50.00,Groceries'' =
       Inr (\<lparr>year = 2023, month = 10, day = 1\<rparr>, - 50, ''Groceries'', [])"
proof -
  have 1: "\<not> (iso_shape (field 0 line) \<or> us_shape (field 0 line)) \<longrightarrow>
      parse_csv_line line = Inl (ValueError (''Line does not match expected format: '' @ line))"
    using no_match_fields[of line] by blast
  have 2: "\<not> amount_shape (field 1 line) \<longrightarrow>
      parse_csv_line line = Inl (ValueError (''Line does not match expected format: '' @ line))"
    using no_match_fields[of line] by blast
  have 3: "re_match csv_pattern line = Some g \<longrightarrow>
      (iso_shape (field 0 line) \<or> us_shape (field 0 line)) \<and>
      parse_csv_line line =
        (case strptime (field 0 line) (format_of (field 0 line)) of
           Inl e \<Rightarrow> Inl e
         | Inr d \<Rightarrow>
             Inr (d, float_of_str (group_text g GAmount), strip (group_text g GCategory),
                  group_text g GDescription))"
    using match_date_group[of line g] parse_matched[of line g] by blast
  have 4: "parse_csv_line line = Inr (d, a, c, ds) \<longrightarrow>
      (iso_shape (field 0 line) \<or> us_shape (field 0 line)) \<and>
      strptime (field 0 line) (format_of (field 0 line)) = Inr d \<and> valid_date d"
    using parse_accepted[of line d a c ds] by blast
  have 5: "strptime (field 0 line) (format_of (field 0 line)) = Inl e \<longrightarrow>
      parse_csv_line line = Inl e \<or>
      parse_csv_line line = Inl (ValueError (''Line does not match expected format: '' @ line))"
    using parse_rejected[of line e] by blast
  have 6: "valid_date v \<longrightarrow>
      iso_shape (isoformat v) \<and> strptime (isoformat v) YMD = Inr v \<and>
      parse_csv_line (isoformat v @ '',-50.00,Groceries'') = Inr (v, - 50, ''Groceries'', [])"
    using strptime_isoformat[of v] parse_isoformat[of v] by blast
  have 7: "valid_date v \<and> (wm = 1 \<or> wm = 2) \<and> (wd = 1 \<or> wd = 2) \<longrightarrow>
      us_shape (us_text wm wd v) \<and> strptime (us_text wm wd v) MDY = Inr v \<and>
      parse_csv_line (us_text wm wd v @ '',-50.00,Groceries'') = Inr (v, - 50, ''Groceries'', [])"
    using strptime_us_text[of v wm wd] parse_us_text[of v wm wd] by blast
  from 1 2 3 4 5 6 7 parse_examples show ?thesis by blast
qed

lemma other_date_shape:
  "\<not> iso_shape (field 0 ''01.10.2023,-50.00,Groceries'')
   \<and> \<not> us_shape (field 0 ''01.10.2023,-50.00,Groceries'')"
  by code_simp

lemma other_amount_shape: "\<not> amount_shape (field 1 ''10/01/2023,fifty,Groceries'')"
  by code_simp

lemma short_date_text:
  "valid_date \<lparr>year = 2023, month = 1, day = 5\<rparr>
   \<and> us_text 1 1 \<lparr>year = 2023, month = 1, day = 5\<rparr> = ''1/5/2023''
   \<and> us_text 2 2 \<lparr>year = 2023, month = 1, day = 5\<rparr> = ''01/05/2023''
   \<and> isoformat \<lparr>year = 2023, month = 1, day = 5\<rparr> = ''2023-01-05''"
  by code_simp

text \<open>
  A date field of another shape and an amount that is no number are rejected with the
  error that quotes the line; the fifth of January 2023 is accepted as \<^verbatim>\<open>1/5/2023\<close>, as
  \<^verbatim>\<open>01/05/2023\<close> and as \<^verbatim>\<open>2023-01-05\<close>.
\<close>

theorem parse_csv_line_dates_witness:
  "parse_csv_line ''01.10.2023,-50.00,Groceries'' =
     Inl (ValueError ''Line does not match expected format: 01.10.2023,-50.00,Groceries'')
   \<and> parse_csv_line ''10/01/2023,fifty,Groceries'' =
     Inl (ValueError ''Line does not match expected format: 10/01/2023,fifty,Groceries'')
   \<and> parse_csv_line ''1/5/2023,-50.00,Groceries'' =
     Inr (\<lparr>year = 2023, month = 1, day = 5\<rparr>, - 50, ''Groceries'', [])
   \<and> parse_csv_line ''01/05/2023,-50.00,Groceries'' =
     Inr (\<lparr>year = 2023, month = 1, day = 5\<rparr>, - 50, ''Groceries'', [])
   \<and> parse_csv_line ''2023-01-05,-50.00,Groceries'' =
     Inr (\<lparr>year = 2023, month = 1, day = 5\<rparr>, - 50, ''Groceries'', [])"
  using parse_csv_line_dates[where line = "''01.10.2023,-50.00,Groceries''"
      and v = "\<lparr>year = 2023, month = 1, day = 5\<rparr>" and wm = 1 and wd = 1]
    parse_csv_line_dates[where line = "''10/01/2023,fifty,Groceries''"
      and v = "\<lparr>year = 2023, month = 1, day = 5\<rparr>" and wm = 2 and wd = 2]
    other_date_shape other_amount_shape short_date_text
  by simp

section \<open>Properties of the import\<close>

lemma import_line_eq:
  "import_line svc l =
     (case line_transaction l of
        Inl e \<Rightarrow> Inl e
      | Inr t \<Rightarrow>
          Inr (svc\<lparr>account := (account svc)
                 \<lparr>transactions := transactions (account svc) @ [t\<lparr>id' := Some (next_id (account svc))\<rparr>],
                  next_id := next_id (account svc) + 1\<rparr>\<rparr>))"
  by (auto simp: import_line_def line_transaction_def create_transaction_def
      add_transaction_def split: sum.splits prod.splits)

lemma length_imported:
  "length (imported_transactions n ls) = length (imported_transactions m ls)"
  by (induction ls arbitrary: n m) (auto split: sum.splits)

lemma import_loop_eq:
  "import_loop svc i ls imported errors =
     ((imported + length (imported_transactions (next_id (account svc)) ls),
       errors @ line_errors i ls),
      svc\<lparr>account := (account svc)
        \<lparr>transactions := transactions (account svc)
            @ imported_transactions (next_id (account svc)) ls,
         next_id := next_id (account svc)
            + int (length (imported_transactions (next_id (account svc)) ls))\<rparr>\<rparr>)"
proof (induction ls arbitrary: svc i imported errors)
  case Nil
  then show ?case by simp
next
  case (Cons l ls)
  show ?case
  proof (cases "line_transaction l")
    case (Inl e)
    then show ?thesis by (simp add: import_line_eq Cons.IH)
  next
    case (Inr t)
    then show ?thesis
      using length_imported[of "next_id (account svc) + 1" ls "next_id (account svc)"]
      by (simp add: import_line_eq Cons.IH)
  qed
qed

text \<open>
  Claim C5. \<^verbatim>\<open>import_transactions_from_csv\<close> handles the lines of the stripped input one
  by one and in order. The count it returns is the number of lines that go through, the
  errors are the messages \<^verbatim>\<open>Line <position>: <message>\<close> of the lines that fail, in order
  and with positions counted from 1, and the account afterwards holds what it held before
  followed by one transaction for each line that went through, with consecutive ids from
  \<open>next_id\<close> on: a failing line adds nothing and takes nothing back. For three lines of
  which the second fails, a new account ends with count 2, the one error of line 2, and
  the two transactions with ids 1 and 2.
\<close>

theorem import_per_line:
  "import_transactions_from_csv svc csv_content =
     ((length (imported_transactions (next_id (account svc)) (splitlines (strip csv_content))),
       line_errors 0 (splitlines (strip csv_content))),
      svc\<lparr>account := (account svc)
        \<lparr>transactions := transactions (account svc)
            @ imported_transactions (next_id (account svc)) (splitlines (strip csv_content)),
         next_id := next_id (account svc)
            + int (length (imported_transactions (next_id (account svc))
                     (splitlines (strip csv_content))))\<rparr>\<rparr>)
   \<and> (splitlines (strip csv_content) = [l1, l2, l3] \<and> line_transaction l1 = Inr t1 \<and>
        line_transaction l2 = Inl e \<and> line_transaction l3 = Inr t3 \<longrightarrow>
        import_transactions_from_csv \<lparr>account = Account_init, budget = b\<rparr> csv_content =
          ((2, [''Line 2: '' @ message e]),
           \<lparr>account = \<lparr>transactions = [t1\<lparr>id' := Some 1\<rparr>, t3\<lparr>id' := Some 2\<rparr>], next_id = 3\<rparr>,
            budget = b\<rparr>))"
proof -
  have s2: "str_nat (Suc (Suc 0)) = ''2''" by (simp add: str_nat.simps[of "Suc (Suc 0)"])
  show ?thesis
    by (simp add: import_transactions_from_csv_def import_loop_eq Account_init_def s2)
qed

lemma csv_example_lines:
  "splitlines (strip csv_example) =
     [''2023-10-01,-50.00,Groceries,Weekly shop'', ''2023-10-02;12;Lunch'',
      ''10/02/2023,1000,Income'']"
  by code_simp

lemma csv_example_line_1:
  "line_transaction ''2023-10-01,-50.00,Groceries,Weekly shop'' =
     Inr \<lparr>date = Date \<lparr>year = 2023, month = 10, day = 1\<rparr>, amount = - 50,
          category = ''Groceries'', description = ''Weekly shop'', id' = None\<rparr>"
  by code_simp

lemma csv_example_line_2:
  "line_transaction ''2023-10-02;12;Lunch'' =
     Inl (ValueError ''Line does not match expected format: 2023-10-02;12;Lunch'')"
  by code_simp

lemma csv_example_line_3:
  "line_transaction ''10/02/2023,1000,Income'' =
     Inr \<lparr>date = Date \<lparr>year = 2023, month = 10, day = 2\<rparr>, amount = 1000,
          category = ''Income'', description = [], id' = None\<rparr>"
  by code_simp

theorem import_per_line_witness:
  "import_transactions_from_csv \<lparr>account = Account_init, budget = None\<rparr> csv_example =
     ((2, [''Line 2: Line does not match expected format: 2023-10-02;12;Lunch'']),
      \<lparr>account = \<lparr>transactions =
          [\<lparr>date = Date \<lparr>year = 2023, month = 10, day = 1\<rparr>, amount = - 50,
            category = ''Groceries'', description = ''Weekly shop'', id' = Some 1\<rparr>,
           \<lparr>date = Date \<lparr>year = 2023, month = 10, day = 2\<rparr>, amount = 1000,
            category = ''Income'', description = [], id' = Some 2\<rparr>],
          next_id = 3\<rparr>,
       budget = None\<rparr>)"
  using import_per_line[where svc = "\<lparr>account = Account_init, budget = None\<rparr>"
      and csv_content = csv_example and b = None
      and ?l1.0 = "''2023-10-01,-50.00,Groceries,Weekly shop''"
      and ?l2.0 = "''2023-10-02;12;Lunch''" and ?l3.0 = "''10/02/2023,1000,Income''"
      and ?t1.0 = "\<lparr>date = Date \<lparr>year = 2023, month = 10, day = 1\<rparr>, amount = - 50,
          category = ''Groceries'', description = ''Weekly shop'', id' = None\<rparr>"
      and e = "ValueError ''Line does not match expected format: 2023-10-02;12;Lunch''"
      and ?t3.0 = "\<lparr>date = Date \<lparr>year = 2023, month = 10, day = 2\<rparr>, amount = 1000,
          category = ''Income'', description = [], id' = None\<rparr>", THEN conjunct2]
    csv_example_lines csv_example_line_1 csv_example_line_2 csv_example_line_3
  by simp

end
